theory Spec2Isabelle
  imports Complex_Main "HOL-Library.Word" "HOL-Library.Sublist"
begin

section \<open>JavaScript values used by the front end\<close>

text \<open>
  A JavaScript string is a sequence of UTF-16 code units. String literals of the source
  are written with \<open>js\<close>, which maps each ASCII character to its code unit.
\<close>

type_synonym jsstring = "16 word list"

definition js :: "string \<Rightarrow> jsstring" where
  "js s = map (\<lambda>c. of_nat (of_char c)) s"

text \<open>
  \<open>String.prototype.trim\<close> removes WhiteSpace and LineTerminator code points from both
  ends: TAB, LF, VT, FF, CR, SP, NBSP, U+1680, U+2000 to U+200A, U+2028, U+2029, U+202F,
  U+205F, U+3000 and U+FEFF.
\<close>

definition is_whitespace :: "16 word \<Rightarrow> bool" where
  "is_whitespace c \<longleftrightarrow>
     c \<in> {0x9, 0xA, 0xB, 0xC, 0xD, 0x20, 0xA0, 0x1680, 0x2028, 0x2029, 0x202F, 0x205F,
          0x3000, 0xFEFF}
     \<or> (0x2000 \<le> c \<and> c \<le> 0x200A)"

definition trim :: "jsstring \<Rightarrow> jsstring" where
  "trim s = rev (dropWhile is_whitespace (rev (dropWhile is_whitespace s)))"

text \<open>\<open>s.startsWith(p)\<close> and \<open>s.slice(n)\<close> for a non-negative \<open>n\<close>.\<close>

definition startsWith :: "jsstring \<Rightarrow> jsstring \<Rightarrow> bool" where
  "startsWith s p \<longleftrightarrow> take (length p) s = p"

definition slice :: "jsstring \<Rightarrow> nat \<Rightarrow> jsstring" where
  "slice s n = drop n s"

text \<open>
  \<open>s.split(d)\<close> for a one-unit separator: the pieces between the separators, so the
  result is never empty and a trailing separator yields a final empty piece.
\<close>

fun split :: "'a \<Rightarrow> 'a list \<Rightarrow> 'a list list" where
  "split d [] = [[]]"
| "split d (c # cs) =
     (if c = d then [] # split d cs
      else (case split d cs of
              [] \<Rightarrow> [[c]]
            | w # ws \<Rightarrow> (c # w) # ws))"

text \<open>
  The values \<open>JSON.parse\<close> produces. A finite JSON number is a rational. An object is
  its list of properties; \<open>undefined\<close> is \<open>None\<close> of \<open>json option\<close>.
\<close>

datatype json =
    JNull
  | JBool bool
  | JNum rat
  | JStr jsstring
  | JArr "json list"
  | JObj "(jsstring \<times> json) list"

text \<open>
  What the source takes from the JavaScript runtime and does not define itself:
  \<open>JSON.parse\<close> (\<open>None\<close> when it throws a SyntaxError) and the printing of a number.
\<close>

record runtime =
  JSON_parse :: "jsstring \<Rightarrow> json option"
  Number_toString :: "rat \<Rightarrow> jsstring"

text \<open>
  Reading a property \<open>data.k\<close> of a value other than \<open>null\<close>, for the property names
  the source reads (\<open>type\<close>, \<open>content\<close>, \<open>conversation_id\<close>, \<open>sources\<close>): only an
  object can own one of them. On \<open>null\<close> the access throws a TypeError, which the
  caller tests before.
\<close>

fun get_prop :: "json \<Rightarrow> jsstring \<Rightarrow> json option" where
  "get_prop (JObj fs) k = map_of fs k"
| "get_prop _ k = None"

fun intercalate :: "'a list \<Rightarrow> 'a list list \<Rightarrow> 'a list" where
  "intercalate sep [] = []"
| "intercalate sep [x] = x"
| "intercalate sep (x # y # ys) = x @ sep @ intercalate sep (y # ys)"

text \<open>
  The string conversion that \<open>fullContent += data.content\<close> applies to the right
  operand; \<open>None\<close> when it throws a TypeError. A string is itself, an array is its
  elements joined by commas with \<open>null\<close> printed empty. An object is converted by the
  \<open>toString\<close> it inherits, which gives \<open>[object Object]\<close>, unless it owns a property
  named \<open>toString\<close>: a parsed value is never callable, the inherited \<open>valueOf\<close> returns
  the object itself, and the conversion throws. The same holds for an object inside an
  array.
\<close>

fun to_string :: "(rat \<Rightarrow> jsstring) \<Rightarrow> json \<Rightarrow> jsstring option" where
  "to_string num JNull = Some (js ''null'')"
| "to_string num (JBool b) = Some (if b then js ''true'' else js ''false'')"
| "to_string num (JNum r) = Some (num r)"
| "to_string num (JStr s) = Some s"
| "to_string num (JArr xs) =
     map_option (intercalate (js '',''))
       (those (map (\<lambda>x. if x = JNull then Some [] else to_string num x) xs))"
| "to_string num (JObj fs) =
     (if js ''toString'' \<in> fst ` set fs then None else Some (js ''[object Object]''))"

definition ToString :: "runtime \<Rightarrow> json option \<Rightarrow> jsstring option" where
  "ToString rt v =
     (case v of
        None \<Rightarrow> Some (js ''undefined'')
      | Some x \<Rightarrow> to_string (Number_toString rt) x)"

section \<open>ChatInterface\<close>

text \<open>
  A \<open>Message\<close> of the chat view. The identifier is \<open>Date.now().toString()\<close>; the model
  keeps the number that is printed (decimal printing is injective). The field
  \<open>sources\<close> is optional, and at run time it holds whatever the \<open>sources\<close> event carried.
\<close>

datatype role = User | Assistant

record message =
  msg_id :: nat
  role :: role
  content :: jsstring
  created_at :: jsstring
  sources :: "json option"

text \<open>The body of the POST request to \<open>/api/chat/stream\<close>.\<close>

record request =
  req_message :: jsstring
  req_conversation_id :: "json option"

text \<open>
  The state of the component (\<open>useState\<close>) together with the effects of \<open>handleSend\<close>
  that leave the component: the requests issued, the alerts shown and the number of
  lines written to the console.
\<close>

record chat =
  messages :: "message list"
  input :: jsstring
  loading :: bool
  conversationId :: "json option"
  requests :: "request list"
  alerts :: nat
  console :: nat

text \<open>
  What the network gives back. \<open>fetch\<close> rejects, or resolves to a response with its
  \<open>ok\<close> flag and a body that may be missing. The body is read until \<open>done\<close>: each read
  gives a decoded chunk or throws; the list ends where \<open>done\<close> is reported.
\<close>

datatype read_result = Chunk jsstring | ReadFailure

datatype fetch_result =
    FetchRejected
  | Response bool "read_result list option"

text \<open>The clock readings of one call: \<open>Date.now()\<close> and \<open>new Date().toISOString()\<close>, twice.\<close>

record clock =
  now_user :: nat
  iso_user :: jsstring
  now_assistant :: nat
  iso_assistant :: jsstring

text \<open>
  The variables of the read loop: the component, \<open>fullContent\<close> and \<open>sources\<close>.
\<close>

type_synonym consumer = "chat \<times> jsstring \<times> json option"

datatype flow = Next | Break

definition set_content :: "nat \<Rightarrow> jsstring \<Rightarrow> message list \<Rightarrow> message list" where
  "set_content aid full prev =
     map (\<lambda>msg. if msg_id msg = aid then msg\<lparr>content := full\<rparr> else msg) prev"

definition set_sources :: "nat \<Rightarrow> json option \<Rightarrow> message list \<Rightarrow> message list" where
  "set_sources aid srcs prev =
     map (\<lambda>msg. if msg_id msg = aid then msg\<lparr>sources := srcs\<rparr> else msg) prev"

text \<open>
  The body of \<open>for (const line of lines)\<close>. The \<open>try\<close> covers the parse and the
  dispatch: a SyntaxError of \<open>JSON.parse\<close>, the TypeError of \<open>data.type\<close> on \<open>null\<close> and
  the TypeError of the string conversion in \<open>fullContent += data.content\<close> are caught
  and logged, the last before \<open>fullContent\<close> is assigned. \<open>break\<close> leaves the \<open>for\<close>
  loop only.
\<close>

definition process_line :: "runtime \<Rightarrow> nat \<Rightarrow> jsstring \<Rightarrow> consumer \<Rightarrow> consumer \<times> flow" where
  "process_line rt aid line s =
     (case s of (st, fullContent, srcs) \<Rightarrow>
        if startsWith line (js ''data: '') then
          (case JSON_parse rt (slice line 6) of
             None \<Rightarrow> ((st\<lparr>console := console st + 1\<rparr>, fullContent, srcs), Next)
           | Some data \<Rightarrow>
               if data = JNull then ((st\<lparr>console := console st + 1\<rparr>, fullContent, srcs), Next)
               else if get_prop data (js ''type'') = Some (JStr (js ''conversation_id'')) then
                 ((st\<lparr>conversationId := get_prop data (js ''conversation_id'')\<rparr>,
                   fullContent, srcs), Next)
               else if get_prop data (js ''type'') = Some (JStr (js ''content'')) then
                 (case ToString rt (get_prop data (js ''content'')) of
                    None \<Rightarrow> ((st\<lparr>console := console st + 1\<rparr>, fullContent, srcs), Next)
                  | Some text \<Rightarrow>
                      (let full = fullContent @ text
                       in ((st\<lparr>messages := set_content aid full (messages st)\<rparr>, full, srcs),
                           Next)))
               else if get_prop data (js ''type'') = Some (JStr (js ''sources'')) then
                 (let new = get_prop data (js ''sources'')
                  in ((st\<lparr>messages := set_sources aid new (messages st)\<rparr>, fullContent, new),
                      Next))
               else if get_prop data (js ''type'') = Some (JStr (js ''done'')) then
                 (s, Break)
               else (s, Next))
        else (s, Next))"

fun process_lines :: "runtime \<Rightarrow> nat \<Rightarrow> jsstring list \<Rightarrow> consumer \<Rightarrow> consumer" where
  "process_lines rt aid [] s = s"
| "process_lines rt aid (line # lines) s =
     (case process_line rt aid line s of
        (s', Break) \<Rightarrow> s'
      | (s', Next) \<Rightarrow> process_lines rt aid lines s')"

text \<open>
  The \<open>while (true)\<close> loop over the reads: \<open>Inr\<close> when the reader reports \<open>done\<close>,
  \<open>Inl\<close> with the variables as they are when a read throws. The loop ends because the
  response body does; a body that never ends is outside this model.
\<close>

fun read_loop :: "runtime \<Rightarrow> nat \<Rightarrow> read_result list \<Rightarrow> consumer \<Rightarrow> consumer + consumer" where
  "read_loop rt aid [] s = Inr s"
| "read_loop rt aid (ReadFailure # rs) s = Inl s"
| "read_loop rt aid (Chunk c # rs) s =
     read_loop rt aid rs (process_lines rt aid (split 0xA c) s)"

definition on_error :: "nat \<Rightarrow> chat \<Rightarrow> chat" where
  "on_error aid st =
     st\<lparr>console := console st + 1, alerts := alerts st + 1,
        messages := filter (\<lambda>msg. msg_id msg \<noteq> aid) (messages st)\<rparr>"

text \<open>
  \<open>handleSend\<close>. The state fields read are those of the render the handler belongs
  to. The state updates are applied in the order the handler issues them. The updaters
  passed to \<open>setMessages\<close> read the variables \<open>fullContent\<close> and \<open>sources\<close> when React
  runs them; the model gives them the values at the time of the call. The state the
  handler ends in is the same, since \<open>fullContent\<close> is only ever extended and the last
  updater of each kind runs after the last assignment.
\<close>

definition handleSend :: "runtime \<Rightarrow> clock \<Rightarrow> fetch_result \<Rightarrow> chat \<Rightarrow> chat" where
  "handleSend rt clk net st =
     (if trim (input st) = [] \<or> loading st then st
      else
        let userMessage = input st;
            tempUserMsg = \<lparr>msg_id = now_user clk, role = User, content = userMessage,
                           created_at = iso_user clk, sources = None\<rparr>;
            assistantMsgId = now_assistant clk + 1;
            assistantMsg = \<lparr>msg_id = assistantMsgId, role = Assistant, content = [],
                            created_at = iso_assistant clk, sources = None\<rparr>;
            st1 = st\<lparr>input := [], loading := True,
                     messages := messages st @ [tempUserMsg] @ [assistantMsg],
                     requests := requests st @
                       [\<lparr>req_message = userMessage, req_conversation_id = conversationId st\<rparr>]\<rparr>;
            st2 = (case net of
                     FetchRejected \<Rightarrow> on_error assistantMsgId st1
                   | Response ok body \<Rightarrow>
                       if \<not> ok then on_error assistantMsgId st1
                       else (case body of
                               None \<Rightarrow> st1
                             | Some reads \<Rightarrow>
                                 (case read_loop rt assistantMsgId reads (st1, [], Some (JArr [])) of
                                    Inl s \<Rightarrow> on_error assistantMsgId (fst s)
                                  | Inr s \<Rightarrow> fst s)))
        in st2\<lparr>loading := False\<rparr>)"

text \<open>
  The part of the variables of the read loop that does not count console output.
\<close>

definition unlogged :: "consumer \<Rightarrow> consumer" where
  "unlogged s = (case s of (st, full, srcs) \<Rightarrow> (st\<lparr>console := 0\<rparr>, full, srcs))"

text \<open>
  The stream as the loop reads it, stated without the loop. \<open>event_of\<close> is the payload
  the dispatch of a line works on, if the line has one; \<open>has_tag\<close> says that this
  payload's \<open>type\<close> is the given string. Of a chunk the loop looks at the lines before
  the first \<open>done\<close> event, and of the reads at the chunks before the first failure.
\<close>

definition event_of :: "runtime \<Rightarrow> jsstring \<Rightarrow> json option" where
  "event_of rt line =
     (if startsWith line (js ''data: '') then
        (case JSON_parse rt (slice line 6) of
           None \<Rightarrow> None
         | Some data \<Rightarrow> if data = JNull then None else Some data)
      else None)"

definition has_tag :: "runtime \<Rightarrow> string \<Rightarrow> jsstring \<Rightarrow> bool" where
  "has_tag rt t line =
     (case event_of rt line of
        None \<Rightarrow> False
      | Some data \<Rightarrow> get_prop data (js ''type'') = Some (JStr (js t)))"

definition fragment_of :: "runtime \<Rightarrow> jsstring \<Rightarrow> jsstring option" where
  "fragment_of rt line =
     (case event_of rt line of
        None \<Rightarrow> None
      | Some data \<Rightarrow>
          if get_prop data (js ''type'') = Some (JStr (js ''content''))
          then ToString rt (get_prop data (js ''content''))
          else None)"

definition lines_seen :: "runtime \<Rightarrow> jsstring \<Rightarrow> jsstring list" where
  "lines_seen rt c = takeWhile (\<lambda>line. \<not> has_tag rt ''done'' line) (split 0xA c)"

fun chunks_read :: "read_result list \<Rightarrow> jsstring list" where
  "chunks_read [] = []"
| "chunks_read (ReadFailure # rs) = []"
| "chunks_read (Chunk c # rs) = c # chunks_read rs"

text \<open>
  The texts the loop appends to \<open>fullContent\<close>: those of the \<open>content\<close> events among the
  lines it looks at, every chunk split into lines on its own. What they are depends on
  where the reads cut the body, since a line cut by a read is two lines to the loop.
\<close>

definition fragments_taken :: "runtime \<Rightarrow> read_result list \<Rightarrow> jsstring list" where
  "fragments_taken rt reads =
     concat (map (\<lambda>c. List.map_filter (fragment_of rt) (lines_seen rt c)) (chunks_read reads))"

text \<open>
  The sources block of a rendered message:
  \<open>msg.sources && msg.sources.length > 0 && (... msg.sources.map ...)\<close>.
  The declared type of the field is an optional array. A value of another shape that
  is truthy is marked as such; what is rendered for it is not modelled.
\<close>

datatype sources_view = NoBlock | Block "json list" | NotAnArray

fun truthy :: "json \<Rightarrow> bool" where
  "truthy JNull = False"
| "truthy (JBool b) = b"
| "truthy (JNum r) = (r \<noteq> 0)"
| "truthy (JStr s) = (s \<noteq> [])"
| "truthy (JArr xs) = True"
| "truthy (JObj fs) = True"

definition render_sources :: "message \<Rightarrow> sources_view" where
  "render_sources msg =
     (case sources msg of
        None \<Rightarrow> NoBlock
      | Some (JArr xs) \<Rightarrow> if length xs > 0 then Block xs else NoBlock
      | Some v \<Rightarrow> if truthy v then NotAnArray else NoBlock)"

section \<open>DocumentUpload\<close>

text \<open>A \<open>File\<close> as the component uses it: its name and its size in bytes.\<close>

record dropped_file =
  file_name :: jsstring
  file_size :: nat

text \<open>
  The state of the component, with the calls of \<open>documentsApi.uploadDocument\<close> (the
  file and the category passed) and the alerts shown. Console output is not kept.
\<close>

record upload =
  selectedFile :: "dropped_file option"
  category :: jsstring
  uploading :: bool
  uploadSuccess :: bool
  dragOver :: bool
  uploaded :: "(dropped_file \<times> jsstring option) list"
  upload_alerts :: nat

text \<open>
  The \<open>accept\<close> attribute of the file input, \<open>.pdf,.docx,.txt\<close>. The browser's file
  picker compares it with the end of the name, letter case ignored; the component
  itself never reads it.
\<close>

definition accept :: "string list" where
  "accept = [''.pdf'', ''.docx'', ''.txt'']"

definition lower :: "16 word \<Rightarrow> 16 word" where
  "lower c = (if 0x41 \<le> c \<and> c \<le> 0x5A then c + 0x20 else c)"

definition matches_accept :: "jsstring \<Rightarrow> bool" where
  "matches_accept name \<longleftrightarrow> (\<exists>ext \<in> set accept. suffix (js ext) (map lower name))"

text \<open>
  The event handlers. The argument is the file list of the event (\<open>e.target.files\<close>,
  \<open>e.dataTransfer.files\<close>), \<open>None\<close> when it is \<open>null\<close>.
\<close>

definition handleFileSelect :: "dropped_file list option \<Rightarrow> upload \<Rightarrow> upload" where
  "handleFileSelect files st =
     (case files of
        Some (f # fs) \<Rightarrow> st\<lparr>selectedFile := Some f, uploadSuccess := False\<rparr>
      | _ \<Rightarrow> st)"

definition handleDrop :: "dropped_file list option \<Rightarrow> upload \<Rightarrow> upload" where
  "handleDrop files st =
     (let st1 = st\<lparr>dragOver := False\<rparr>
      in case files of
           Some (f # fs) \<Rightarrow> st1\<lparr>selectedFile := Some f, uploadSuccess := False\<rparr>
         | _ \<Rightarrow> st1)"

definition handleDragOver :: "upload \<Rightarrow> upload" where
  "handleDragOver st = st\<lparr>dragOver := True\<rparr>"

definition handleDragLeave :: "upload \<Rightarrow> upload" where
  "handleDragLeave st = st\<lparr>dragOver := False\<rparr>"

text \<open>
  \<open>handleUpload\<close>; the argument says whether \<open>documentsApi.uploadDocument\<close> resolved.
  The category passed is \<open>category || undefined\<close>.
\<close>

definition handleUpload :: "bool \<Rightarrow> upload \<Rightarrow> upload" where
  "handleUpload resolved st =
     (case selectedFile st of
        None \<Rightarrow> st
      | Some f \<Rightarrow>
          let st1 = st\<lparr>uploading := True,
                       uploaded := uploaded st @ [(f, if category st = [] then None else Some (category st))]\<rparr>;
              st2 = (if resolved
                     then st1\<lparr>uploadSuccess := True, selectedFile := None, category := [],
                             upload_alerts := upload_alerts st1 + 1\<rparr>
                     else st1\<lparr>upload_alerts := upload_alerts st1 + 1\<rparr>)
          in st2\<lparr>uploading := False\<rparr>)"

section \<open>MetricsDashboard\<close>

text \<open>
  The \<open>MetricsStats\<close> the dashboard receives, with the fields it reads
  (\<open>stats.tokens.total\<close> is \<open>tokens_total\<close> and so on). The first-token latency may be
  missing.
\<close>

record MetricsStats =
  total_queries :: rat
  tokens_total :: rat
  tokens_avg_per_query :: rat
  costs_usd_total :: rat
  costs_usd_avg_per_query :: rat
  latency_ms_avg_total :: rat
  latency_ms_avg_first_token :: "rat option"
  latency_ms_avg_retrieval :: rat
  retrieval_avg_sources :: rat
  retrieval_avg_relevance :: rat

text \<open>
  The state of the component; \<open>timeRange\<close> is a number of hours or \<open>undefined\<close>. The
  arguments of the calls of \<open>metricsApi.getStats\<close> are kept.
\<close>

record dashboard =
  dash_stats :: "MetricsStats option"
  dash_loading :: bool
  dash_error :: "jsstring option"
  timeRange :: "nat option"
  getStats_calls :: "nat option list"

text \<open>
  What \<open>metricsApi.getStats\<close> gives: the statistics, or a rejection, which may carry
  \<open>err.response.data.error\<close>.
\<close>

datatype api_result = Resolved MetricsStats | Rejected "jsstring option"

text \<open>The two texts of the error view; the letters outside ASCII are given by code unit.\<close>

definition load_failed_text :: jsstring where
  "load_failed_text =
     js ''Nem siker'' @ [0xFC] @ js ''lt bet'' @ [0xF6] @ js ''lteni a metrik'' @ [0xE1] @ js ''kat''"

definition no_data_hint :: jsstring where
  "no_data_hint =
     js ''M'' @ [0xE9] @ js ''g nincs adat. Pr'' @ [0xF3] @ js ''b'' @ [0xE1] @ js ''lj ki n''
       @ [0xE9] @ js ''h'' @ [0xE1] @ js ''ny lek'' @ [0xE9] @ js ''rdez'' @ [0xE9]
       @ js ''st a Chat fel'' @ [0xFC] @ js ''leten!''"

definition loadStats :: "api_result \<Rightarrow> dashboard \<Rightarrow> dashboard" where
  "loadStats res st =
     (let st1 = st\<lparr>dash_loading := True, dash_error := None,
                   getStats_calls := getStats_calls st @ [timeRange st]\<rparr>;
          st2 = (case res of
                   Resolved data \<Rightarrow> st1\<lparr>dash_stats := Some data\<rparr>
                 | Rejected e \<Rightarrow>
                     (case e of
                        Some text \<Rightarrow>
                          if text \<noteq> [] then st1\<lparr>dash_error := Some text\<rparr>
                          else st1\<lparr>dash_error := Some load_failed_text\<rparr>
                      | None \<Rightarrow> st1\<lparr>dash_error := Some load_failed_text\<rparr>))
      in st2\<lparr>dash_loading := False\<rparr>)"

text \<open>
  What the component renders: the loading view, the error view with the error and the
  hint below it, nothing, or the statistics with the time range.
\<close>

datatype dashboard_view =
    LoadingView
  | ErrorView jsstring jsstring
  | Nothing
  | StatsView MetricsStats "nat option"

definition render_loaded :: "dashboard \<Rightarrow> dashboard_view" where
  "render_loaded st =
     (case dash_stats st of
        None \<Rightarrow> Nothing
      | Some s \<Rightarrow> StatsView s (timeRange st))"

definition render :: "dashboard \<Rightarrow> dashboard_view" where
  "render st =
     (if dash_loading st then LoadingView
      else (case dash_error st of
              None \<Rightarrow> render_loaded st
            | Some e \<Rightarrow> if e \<noteq> [] then ErrorView e no_data_hint else render_loaded st))"

text \<open>
  The three buttons of the statistics view and the value each passes to
  \<open>setTimeRange\<close>. The effect on \<open>[timeRange]\<close> calls \<open>loadStats\<close> after mounting and
  after each change of the value; the buttons exist in the statistics view only.
\<close>

datatype button = LastHour | LastDay | AllTime

fun range_of :: "button \<Rightarrow> nat option" where
  "range_of LastHour = Some 1"
| "range_of LastDay = Some 24"
| "range_of AllTime = None"

definition initial_dashboard :: dashboard where
  "initial_dashboard =
     \<lparr>dash_stats = None, dash_loading = True, dash_error = None, timeRange = Some 24,
      getStats_calls = []\<rparr>"

definition mount :: "api_result \<Rightarrow> dashboard" where
  "mount res = loadStats res initial_dashboard"

definition click :: "dashboard \<Rightarrow> button \<times> api_result \<Rightarrow> dashboard" where
  "click st b =
     (case render st of
        StatsView s r \<Rightarrow>
          if timeRange st = range_of (fst b) then st
          else loadStats (snd b) (st\<lparr>timeRange := range_of (fst b)\<rparr>)
      | _ \<Rightarrow> st)"

definition session :: "api_result \<Rightarrow> (button \<times> api_result) list \<Rightarrow> dashboard" where
  "session res clicks = foldl click (mount res) clicks"

text \<open>
  The percentages shown: \<open>source.relevance_score * 100\<close> in the chat view and
  \<open>stats.retrieval.avg_relevance * 100\<close> in the dashboard.
\<close>

definition percent :: "rat \<Rightarrow> rat" where
  "percent r = r * 100"

section \<open>The core pipeline\<close>

text \<open>
  The components of sections 3 to 7 of the specification: retriever, context
  assembler, generation orchestrator, conversation store and metrics collector. Their
  code is not under \<open>src/\<close>, which holds the presentation layer only, so each definition
  of this section follows the specification's words and says so.
\<close>

text \<open>Modelled from the spec: the error taxonomy of section 7 (\<open>RetrievalEmpty\<close> is not an
  error and is not in it); the code that raises these errors is not under \<open>src/\<close>.\<close>

datatype error_kind = ChunkingError | CapabilityError | StoreError

text \<open>Modelled from the spec: the \<open>Chunk\<close> of section 3 (its document with filename and
  category, ordinal index, source page, raw text, token count); the chunker is not under
  \<open>src/\<close>.\<close>

record chunk =
  document :: nat
  filename :: string
  doc_category :: "string option"
  ordinal :: nat
  page :: nat
  raw_text :: string
  token_count :: nat

text \<open>Modelled from the spec: the \<open>Source\<close> reference of section 3 (chunk identity,
  filename, page, relevance score); the code that builds it is not under \<open>src/\<close>.\<close>

record source =
  src_document :: nat
  src_ordinal :: nat
  src_filename :: string
  src_page :: nat
  relevance_score :: real

subsection \<open>Retriever\<close>

text \<open>Modelled from the spec: the inner product of two embedding vectors, for the cosine
  similarity of section 4.3; the retriever is not under \<open>src/\<close>. Numbers are real numbers,
  not floating point numbers.\<close>

definition dot :: "real list \<Rightarrow> real list \<Rightarrow> real" where
  "dot u v = sum_list (map2 (*) u v)"

text \<open>Modelled from the spec: the "cosine similarity between the query embedding and each
  stored vector" of section 4.3; the retriever is not under \<open>src/\<close>. A vector of norm zero
  has no direction and is given cosine 0.\<close>

definition cosine :: "real list \<Rightarrow> real list \<Rightarrow> real" where
  "cosine u v =
     (if dot u u = 0 \<or> dot v v = 0 then 0 else dot u v / (sqrt (dot u u) * sqrt (dot v v)))"

text \<open>Modelled from the spec: the relevance of section 4.3, the cosine similarity
  "normalized to [0,1]"; the retriever is not under \<open>src/\<close>. The spec does not name the
  normalisation; the cosine lies in [-1,1] and is carried to [0,1] by the affine map.\<close>

definition relevance :: "real list \<Rightarrow> real list \<Rightarrow> real" where
  "relevance u v = (1 + cosine u v) / 2"

text \<open>Modelled from the spec: \<open>query\<close> of section 4.3, on the embedded query text; the
  retriever is not under \<open>src/\<close>. The index lists (chunk, vector) in insertion order.
  \<open>filter\<close> restricts to a document category; only chunks with relevance at least
  \<open>min_relevance\<close> are returned; results are sorted by descending relevance, the sort being
  stable so that the earlier chunk wins a tie; at most \<open>k\<close> are returned.\<close>

definition query ::
  "(chunk \<times> real list) list \<Rightarrow> real list \<Rightarrow> nat \<Rightarrow> real \<Rightarrow> string option \<Rightarrow> (chunk \<times> real) list"
where
  "query index qv k min_relevance category_filter =
     take k (sort_key (\<lambda>cr. - snd cr)
       (filter (\<lambda>cr. min_relevance \<le> snd cr)
         (map (\<lambda>cv. (fst cv, relevance qv (snd cv)))
           (filter (\<lambda>cv. case category_filter of
                             None \<Rightarrow> True
                           | Some cat \<Rightarrow> doc_category (fst cv) = Some cat) index))))"

subsection \<open>Context assembler\<close>

text \<open>Modelled from the spec: the deduplication of section 4.4; the assembler is not under
  \<open>src/\<close>. Of the chunks of one document and page only the first, which has the highest
  relevance, is kept.\<close>

fun dedupe :: "(nat \<times> nat) list \<Rightarrow> (chunk \<times> real) list \<Rightarrow> (chunk \<times> real) list" where
  "dedupe seen [] = []"
| "dedupe seen (cr # rest) =
     (if (document (fst cr), page (fst cr)) \<in> set seen then dedupe seen rest
      else cr # dedupe ((document (fst cr), page (fst cr)) # seen) rest)"

text \<open>Modelled from the spec: the greedy inclusion of section 4.4; the assembler is not under
  \<open>src/\<close>. The chunks are included in order while the token budget allows; a chunk that
  would overflow the budget is skipped, not truncated, and the next one is tried.\<close>

fun include_greedily :: "nat \<Rightarrow> nat \<Rightarrow> (chunk \<times> real) list \<Rightarrow> (chunk \<times> real) list" where
  "include_greedily token_budget used [] = []"
| "include_greedily token_budget used (cr # rest) =
     (if used + token_count (fst cr) > token_budget then include_greedily token_budget used rest
      else cr # include_greedily token_budget (used + token_count (fst cr)) rest)"

text \<open>Modelled from the spec: the Source reference of a retrieved chunk (section 3); the
  code that builds it is not under \<open>src/\<close>.\<close>

definition source_of :: "chunk \<times> real \<Rightarrow> source" where
  "source_of cr =
     \<lparr>src_document = document (fst cr), src_ordinal = ordinal (fst cr),
      src_filename = filename (fst cr), src_page = page (fst cr), relevance_score = snd cr\<rparr>"

text \<open>Modelled from the spec: \<open>assemble\<close> of section 4.4; the assembler is not under \<open>src/\<close>.
  The context is the text of the chunks included, and the sources are listed in the
  order of inclusion.\<close>

definition assemble :: "(chunk \<times> real) list \<Rightarrow> nat \<Rightarrow> string \<times> source list" where
  "assemble retrieved token_budget =
     (let included = include_greedily token_budget 0 (dedupe [] retrieved)
      in (concat (map (\<lambda>cr. raw_text (fst cr)) included), map source_of included))"

subsection \<open>Metrics collector\<close>

text \<open>Modelled from the spec: the \<open>MetricEvent\<close> of section 3 with the failure mark of
  section 4.5; the metrics collector is not under \<open>src/\<close>. A latency that was not reached
  before a failure is absent. Times are milliseconds.\<close>

record metric_event =
  timestamp :: int
  input_tokens :: nat
  output_tokens :: nat
  cost :: real
  retrieval_ms :: "int option"
  first_token_ms :: "int option"
  total_ms :: int
  chunk_count :: nat
  avg_relevance :: real
  failed :: bool

text \<open>Modelled from the spec: the aggregate of section 4.7; the metrics collector is not
  under \<open>src/\<close>.\<close>

record aggregate =
  total_query_count :: nat
  token_total :: nat
  token_average :: real
  total_cost :: real
  average_cost :: real
  average_total_ms :: real
  average_first_token_ms :: "real option"
  average_retrieval_ms :: "real option"
  average_source_count :: real
  average_relevance :: real

text \<open>Modelled from the spec: the result of \<open>stats\<close> (section 4.7), the defined "no data"
  value or an aggregate; the metrics collector is not under \<open>src/\<close>.\<close>

datatype stats_result = NoData | Aggregate aggregate

text \<open>Modelled from the spec: the per-query average of section 4.7; the metrics collector
  is not under \<open>src/\<close>. The average of no value is taken as 0.\<close>

definition mean :: "real list \<Rightarrow> real" where
  "mean xs = (if xs = [] then 0 else sum_list xs / real (length xs))"

text \<open>Modelled from the spec: the average of a latency over the events that measured it
  (sections 4.5 and 4.7); the metrics collector is not under \<open>src/\<close>.\<close>

definition mean_present :: "int option list \<Rightarrow> real option" where
  "mean_present xs =
     (let ys = List.map_filter (\<lambda>x. x) xs
      in if ys = [] then None else Some (mean (map real_of_int ys)))"

text \<open>Modelled from the spec: \<open>record\<close> of section 4.7 (append only); the metrics collector is
  not under \<open>src/\<close>.\<close>

definition record_event :: "metric_event \<Rightarrow> metric_event list \<Rightarrow> metric_event list" where
  "record_event e events = events @ [e]"

text \<open>Modelled from the spec: the events a window selects, section 4.7: all of them when
  the window is omitted, else those with timestamp within \<open>[now - window, now]\<close>; the
  metrics collector is not under \<open>src/\<close>.\<close>

definition in_window :: "int \<Rightarrow> int option \<Rightarrow> metric_event list \<Rightarrow> metric_event list" where
  "in_window now window events =
     (case window of
        None \<Rightarrow> events
      | Some w \<Rightarrow> filter (\<lambda>e. now - w \<le> timestamp e \<and> timestamp e \<le> now) events)"

text \<open>Modelled from the spec: \<open>stats\<close> of section 4.7; the metrics collector is not under
  \<open>src/\<close>. The first argument is what the persistent store returns for the recorded
  events, a storage error or the events; a storage error is the result then. With no
  event in the window the result is the defined "no data" value.\<close>

definition stats ::
  "error_kind + metric_event list \<Rightarrow> int \<Rightarrow> int option \<Rightarrow> error_kind + stats_result"
where
  "stats stored now window =
     (case stored of
        Inl e \<Rightarrow> Inl e
      | Inr events \<Rightarrow>
          (let sel = in_window now window events
           in if sel = [] then Inr NoData
              else Inr (Aggregate
                \<lparr>total_query_count = length sel,
                 token_total = sum_list (map (\<lambda>e. input_tokens e + output_tokens e) sel),
                 token_average =
                   mean (map (\<lambda>e. real (input_tokens e + output_tokens e)) sel),
                 total_cost = sum_list (map cost sel),
                 average_cost = mean (map cost sel),
                 average_total_ms = mean (map (\<lambda>e. real_of_int (total_ms e)) sel),
                 average_first_token_ms = mean_present (map first_token_ms sel),
                 average_retrieval_ms = mean_present (map retrieval_ms sel),
                 average_source_count = mean (map (\<lambda>e. real (chunk_count e)) sel),
                 average_relevance = mean (map avg_relevance sel)\<rparr>)))"

subsection \<open>Conversation store\<close>

text \<open>Modelled from the spec: the persisted \<open>Message\<close> of section 3 (role, content, and the
  ordered Source list of an assistant turn); the conversation store is not under \<open>src/\<close>.\<close>

record stored_message =
  stored_role :: role
  stored_content :: string
  stored_sources :: "source list"

text \<open>Modelled from the spec: what the persistent store holds: the vector index of section
  4.3, the conversations of section 4.6 with the next identity to assign, and the metric
  events of section 4.7; the store is not under \<open>src/\<close>.\<close>

record system =
  index :: "(chunk \<times> real list) list"
  conversations :: "nat \<Rightarrow> stored_message list option"
  next_conversation :: nat
  metric_events :: "metric_event list"

text \<open>Modelled from the spec: \<open>createConversation\<close> of section 4.6; the conversation store
  is not under \<open>src/\<close>.\<close>

definition createConversation :: "system \<Rightarrow> nat \<times> system" where
  "createConversation sys =
     (next_conversation sys,
      sys\<lparr>conversations := (conversations sys)(next_conversation sys \<mapsto> []),
          next_conversation := next_conversation sys + 1\<rparr>)"

text \<open>Modelled from the spec: \<open>appendMessage\<close> of section 4.6; the conversation store is
  not under \<open>src/\<close>. An unknown identity is a \<open>StoreError\<close>.\<close>

definition appendMessage :: "nat \<Rightarrow> stored_message \<Rightarrow> system \<Rightarrow> error_kind + system" where
  "appendMessage cid m sys =
     (case conversations sys cid of
        None \<Rightarrow> Inl StoreError
      | Some history \<Rightarrow> Inr (sys\<lparr>conversations := (conversations sys)(cid \<mapsto> history @ [m])\<rparr>))"

text \<open>Modelled from the spec: \<open>getHistory\<close> of section 4.6; the conversation store is not
  under \<open>src/\<close>. An unknown identity is a \<open>StoreError\<close>.\<close>

definition getHistory :: "system \<Rightarrow> nat \<Rightarrow> error_kind + stored_message list" where
  "getHistory sys cid =
     (case conversations sys cid of None \<Rightarrow> Inl StoreError | Some history \<Rightarrow> Inr history)"

subsection \<open>Generation orchestrator\<close>

text \<open>Modelled from the spec: the tagged union of section 9 for the events of the streamed
  answer, the terminal event carrying the conversation identity and the Source list
  (section 4.5); the orchestrator is not under \<open>src/\<close>.\<close>

datatype event =
    ContentFragment string
  | ConversationAssigned nat
  | SourcesAttached "source list"
  | Completed nat "source list"
  | Failed error_kind

text \<open>Modelled from the spec: the states of the state machine of section 4.5; the
  orchestrator is not under \<open>src/\<close>.\<close>

datatype phase = INIT | RETRIEVING | CONTEXT_READY | GENERATING | STREAMING | DONE | ERROR

text \<open>Modelled from the spec: the explicit configuration structure of section 9 (top-K,
  relevance floor, token budget); the configuration is not under \<open>src/\<close>.\<close>

record config =
  top_k :: nat
  min_relevance :: real
  token_budget :: nat

text \<open>Modelled from the spec: what the external collaborators of section 6 do during one
  query: the question with the optional conversation identity and category filter, the
  outcome of embedding the question, the output units of the generation capability with
  their arrival times, how generation ended (the completion signal, or a failure), the
  times of start, end of retrieval and end, and the usage reported; none of this is under
  \<open>src/\<close>.\<close>

record query_run =
  question :: string
  given_conversation :: "nat option"
  q_filter :: "string option"
  started_at :: int
  embedding :: "error_kind + real list"
  retrieved_at :: int
  units :: "(string \<times> int) list"
  failure :: "error_kind option"
  ended_at :: int
  prompt_tokens :: nat
  completion_tokens :: nat
  cost_usd :: real

text \<open>Modelled from the spec: the observable output of one query (section 4.5): the events
  in the order emitted, the states passed through, the \<open>RetrievalEmpty\<close> flag of section 7,
  and the store afterwards; the orchestrator is not under \<open>src/\<close>.\<close>

record result =
  events :: "event list"
  trace :: "phase list"
  retrieval_empty :: bool
  after :: system

text \<open>Modelled from the spec: the \<open>MetricEvent\<close> written once per query attempt (sections 3
  and 4.5), with the latencies measured so far; the metrics collector is not under
  \<open>src/\<close>.\<close>

definition metric_of ::
  "query_run \<Rightarrow> int option \<Rightarrow> int option \<Rightarrow> source list \<Rightarrow> bool \<Rightarrow> metric_event"
where
  "metric_of run retr first srcs is_failed =
     \<lparr>timestamp = ended_at run, input_tokens = prompt_tokens run,
      output_tokens = completion_tokens run, cost = cost_usd run,
      retrieval_ms = retr, first_token_ms = first,
      total_ms = ended_at run - started_at run,
      chunk_count = length srcs, avg_relevance = mean (map relevance_score srcs),
      failed = is_failed\<rparr>"

text \<open>Modelled from the spec: the write of a \<open>MetricEvent\<close> to the store (section 4.7); the
  metrics collector is not under \<open>src/\<close>.\<close>

definition with_metric :: "metric_event \<Rightarrow> system \<Rightarrow> system" where
  "with_metric e sys = sys\<lparr>metric_events := record_event e (metric_events sys)\<rparr>"

text \<open>Modelled from the spec: the first transition of section 4.5: the history of a given
  conversation is loaded, or a new conversation identity is minted; the orchestrator is
  not under \<open>src/\<close>.\<close>

definition resolve_conversation :: "query_run \<Rightarrow> system \<Rightarrow> error_kind + nat \<times> system" where
  "resolve_conversation run sys =
     (case given_conversation run of
        None \<Rightarrow> Inr (createConversation sys)
      | Some cid \<Rightarrow>
          (case getHistory sys cid of Inl e \<Rightarrow> Inl e | Inr history \<Rightarrow> Inr (cid, sys)))"

text \<open>Modelled from the spec: the turn persisted on \<open>STREAMING \<rightarrow> DONE\<close> (sections 2 and
  4.5): the question and the final answer text with the Source list; the orchestrator is
  not under \<open>src/\<close>.\<close>

definition persist_turn :: "nat \<Rightarrow> string \<Rightarrow> string \<Rightarrow> source list \<Rightarrow> system \<Rightarrow> system" where
  "persist_turn cid q answer srcs sys =
     (case appendMessage cid \<lparr>stored_role = User, stored_content = q, stored_sources = []\<rparr> sys of
        Inl e \<Rightarrow> sys
      | Inr sys1 \<Rightarrow>
          (case appendMessage cid
                  \<lparr>stored_role = Assistant, stored_content = answer, stored_sources = srcs\<rparr> sys1 of
             Inl e \<Rightarrow> sys
           | Inr sys2 \<Rightarrow> sys2))"

text \<open>Modelled from the spec: the state machine of section 4.5, run to its terminal state;
  the orchestrator is not under \<open>src/\<close>. The conversation identity event is emitted as soon
  as the identity is resolved, each output unit is forwarded as a content fragment as it
  arrives, and the stream ends with the terminal event or with \<open>Failed\<close>. On a failure
  nothing is persisted and a metric event marked failed is recorded. A completion signal
  with no output unit before it has no transition to \<open>DONE\<close> and is taken as a malformed
  response.\<close>

definition answer_query :: "config \<Rightarrow> query_run \<Rightarrow> system \<Rightarrow> result" where
  "answer_query cfg run sys =
     (case resolve_conversation run sys of
        Inl e \<Rightarrow>
          \<lparr>events = [Failed e], trace = [INIT, ERROR], retrieval_empty = False,
           after = with_metric (metric_of run None None [] True) sys\<rparr>
      | Inr (cid, sys1) \<Rightarrow>
          (case embedding run of
             Inl e \<Rightarrow>
               \<lparr>events = [ConversationAssigned cid, Failed e],
                trace = [INIT, RETRIEVING, ERROR], retrieval_empty = False,
                after = with_metric (metric_of run None None [] True) sys1\<rparr>
           | Inr qv \<Rightarrow>
               (let retrieved = query (index sys1) qv (top_k cfg) (min_relevance cfg) (q_filter run);
                    srcs = snd (assemble retrieved (token_budget cfg));
                    retr = Some (retrieved_at run - started_at run);
                    first = (case units run of
                               [] \<Rightarrow> None
                             | u # us \<Rightarrow> Some (snd u - started_at run));
                    texts = map fst (units run);
                    streamed = ConversationAssigned cid # map ContentFragment texts;
                    reached = [INIT, RETRIEVING, CONTEXT_READY, GENERATING]
                                @ (if units run = [] then [] else [STREAMING]);
                    ending = (case failure run of
                                Some e \<Rightarrow> Some e
                              | None \<Rightarrow> if units run = [] then Some CapabilityError else None)
                in case ending of
                     Some e \<Rightarrow>
                       \<lparr>events = streamed @ [Failed e], trace = reached @ [ERROR],
                        retrieval_empty = (retrieved = []),
                        after = with_metric (metric_of run retr first srcs True) sys1\<rparr>
                   | None \<Rightarrow>
                       \<lparr>events = streamed @ [SourcesAttached srcs, Completed cid srcs],
                        trace = reached @ [DONE], retrieval_empty = (retrieved = []),
                        after = with_metric (metric_of run retr first srcs False)
                                  (persist_turn cid (question run) (concat texts) srcs sys1)\<rparr>)))"

section \<open>Notions used in the statements\<close>

text \<open>
  The assistant message is the last of the list and the text streamed so far is its
  content: the condition under which the read loop runs in \<open>handleSend\<close>.
\<close>

definition streams_into :: "nat \<Rightarrow> consumer \<Rightarrow> bool" where
  "streams_into aid s \<longleftrightarrow>
     (case s of (st, full, srcs) \<Rightarrow>
        messages st \<noteq> [] \<and> msg_id (last (messages st)) = aid
        \<and> content (last (messages st)) = full)"

definition fragments_of_lines :: "runtime \<Rightarrow> jsstring list \<Rightarrow> jsstring list" where
  "fragments_of_lines rt ls =
     List.map_filter (fragment_of rt) (takeWhile (\<lambda>line. \<not> has_tag rt ''done'' line) ls)"

text \<open>The variables of the read loop when it ends, by \<open>done\<close> or by an exception.\<close>

definition outcome :: "consumer + consumer \<Rightarrow> consumer" where
  "outcome r = (case r of Inl s \<Rightarrow> s | Inr s \<Rightarrow> s)"

text \<open>
  The responses on which \<open>handleSend\<close> enters its \<open>catch\<close> block: \<open>fetch\<close> rejects, the
  response is not \<open>ok\<close>, or a read of the body throws.
\<close>

definition throws :: "fetch_result \<Rightarrow> bool" where
  "throws net =
     (case net of
        FetchRejected \<Rightarrow> True
      | Response ok body \<Rightarrow>
          (if ok then (case body of None \<Rightarrow> False | Some reads \<Rightarrow> ReadFailure \<in> set reads)
           else True))"

text \<open>The messages of the list other than those with the given identifier.\<close>

definition others :: "nat \<Rightarrow> message list \<Rightarrow> message list" where
  "others aid ms = filter (\<lambda>msg. msg_id msg \<noteq> aid) ms"

text \<open>The events of the stream that assign the identity, and the text of a fragment.\<close>

fun is_assigned :: "event \<Rightarrow> bool" where
  "is_assigned (ConversationAssigned c) = True"
| "is_assigned _ = False"

fun fragment_text :: "event \<Rightarrow> string option" where
  "fragment_text (ContentFragment t) = Some t"
| "fragment_text _ = None"

definition emitted_fragments :: "event list \<Rightarrow> string list" where
  "emitted_fragments evs = List.map_filter fragment_text evs"

fun attached_sources :: "event \<Rightarrow> source list" where
  "attached_sources (SourcesAttached ss) = ss"
| "attached_sources (Completed c ss) = ss"
| "attached_sources _ = []"

text \<open>The query gets as far as generation: the conversation is resolved and the question
  embedded.\<close>

definition reaches_generation :: "query_run \<Rightarrow> system \<Rightarrow> bool" where
  "reaches_generation run sys \<longleftrightarrow>
     \<not> isl (resolve_conversation run sys) \<and> \<not> isl (embedding run)"

text \<open>The history of a conversation, empty for an unknown identity.\<close>

definition history_of :: "system \<Rightarrow> nat \<Rightarrow> stored_message list" where
  "history_of sys cid = (case getHistory sys cid of Inl e \<Rightarrow> [] | Inr history \<Rightarrow> history)"

text \<open>The store after a sequence of queries.\<close>

definition serve :: "config \<Rightarrow> query_run list \<Rightarrow> system \<Rightarrow> system" where
  "serve cfg runs sys = foldl (\<lambda>s run. after (answer_query cfg run s)) sys runs"

text \<open>The total query count a result of \<open>stats\<close> reports; "no data" reports none, which
  counts as zero, and an error reports nothing.\<close>

definition reported_count :: "error_kind + stats_result \<Rightarrow> nat option" where
  "reported_count r =
     (case r of
        Inl e \<Rightarrow> None
      | Inr NoData \<Rightarrow> Some 0
      | Inr (Aggregate a) \<Rightarrow> Some (total_query_count a))"

definition reported_relevance :: "error_kind + stats_result \<Rightarrow> real option" where
  "reported_relevance r =
     (case r of
        Inl e \<Rightarrow> None
      | Inr NoData \<Rightarrow> None
      | Inr (Aggregate a) \<Rightarrow> Some (average_relevance a))"

text \<open>The relevance scores of the sources, and the average relevances of the recorded
  metric events, lie in [0,1].\<close>

definition scored :: "source list \<Rightarrow> bool" where
  "scored srcs \<longleftrightarrow> (\<forall>s \<in> set srcs. 0 \<le> relevance_score s \<and> relevance_score s \<le> 1)"

definition metrics_scored :: "system \<Rightarrow> bool" where
  "metrics_scored sys \<longleftrightarrow>
     (\<forall>m \<in> set (metric_events sys). 0 \<le> avg_relevance m \<and> avg_relevance m \<le> 1)"

text \<open>The time range of the dashboard and the arguments of its calls of \<open>getStats\<close> are
  among the three values the buttons offer.\<close>

definition ranges_offered :: "dashboard \<Rightarrow> bool" where
  "ranges_offered st \<longleftrightarrow>
     timeRange st \<in> {Some 1, Some 24, None} \<and> set (getStats_calls st) \<subseteq> {Some 1, Some 24, None}"

text \<open>
  The body of a response is the concatenation of the chunks read. Its content fragments
  are the texts of the \<open>content\<close> events of its lines, in order; they belong to the body
  and do not change with the places where the reads cut it.
\<close>

definition body_read :: "read_result list \<Rightarrow> jsstring" where
  "body_read reads = concat (chunks_read reads)"

definition body_fragments :: "runtime \<Rightarrow> jsstring \<Rightarrow> jsstring list" where
  "body_fragments rt b = List.map_filter (fragment_of rt) (split 0xA b)"

text \<open>The property of the payload of a line, if the line has a payload that owns it.\<close>

definition prop_of :: "runtime \<Rightarrow> jsstring \<Rightarrow> string \<Rightarrow> json option" where
  "prop_of rt line k =
     (case event_of rt line of None \<Rightarrow> None | Some data \<Rightarrow> get_prop data (js k))"

text \<open>Modelled from the spec: the delivery of the events of a query (sections 4.5 and 9) to
  the caller as data lines; the server that writes the lines is not under \<open>src/\<close>. The tags
  are those the consumer under \<open>src/\<close> reads: a content fragment is a \<open>content\<close> event with
  the text, the identity event a \<open>conversation_id\<close> event with an identity, the sources
  event a \<open>sources\<close> event with an array of as many entries, the completion a \<open>done\<close>
  event. The consumer reads no tag for a failure; a failure event is an event with a tag
  that is none of the four.\<close>

fun carries :: "runtime \<Rightarrow> jsstring \<Rightarrow> event \<Rightarrow> bool" where
  "carries rt line (ContentFragment t) =
     (has_tag rt ''content'' line \<and> prop_of rt line ''content'' = Some (JStr (js t)))"
| "carries rt line (ConversationAssigned c) =
     (has_tag rt ''conversation_id'' line \<and> prop_of rt line ''conversation_id'' \<noteq> None)"
| "carries rt line (SourcesAttached ss) =
     (has_tag rt ''sources'' line \<and>
      (case prop_of rt line ''sources'' of
         Some (JArr xs) \<Rightarrow> length xs = length ss
       | _ \<Rightarrow> False))"
| "carries rt line (Completed c ss) = has_tag rt ''done'' line"
| "carries rt line (Failed e) =
     (event_of rt line \<noteq> None \<and> \<not> has_tag rt ''conversation_id'' line
      \<and> \<not> has_tag rt ''content'' line \<and> \<not> has_tag rt ''sources'' line
      \<and> \<not> has_tag rt ''done'' line)"

text \<open>Modelled from the spec: the lines of a body deliver the events of a stream, one line
  for each event in the order emitted, no line holding a line feed; the server that
  writes the body is not under \<open>src/\<close>.\<close>

definition delivers :: "runtime \<Rightarrow> jsstring list \<Rightarrow> event list \<Rightarrow> bool" where
  "delivers rt lines evs \<longleftrightarrow>
     list_all2 (carries rt) lines evs \<and> list_all (\<lambda>line. 0xA \<notin> set line) lines"

text \<open>The terminal events of a stream: the completion and the failure.\<close>

fun is_terminal :: "event \<Rightarrow> bool" where
  "is_terminal (Completed c ss) = True"
| "is_terminal (Failed e) = True"
| "is_terminal _ = False"


section \<open>Example values\<close>

subsection \<open>Of the front end\<close>

text \<open>
  A runtime whose \<open>JSON.parse\<close> knows the texts listed and throws on every other, a
  clock, a component state with a question typed in, and lines of a response body.
\<close>

definition ev_conversation :: json where
  "ev_conversation =
     JObj [(js ''type'', JStr (js ''conversation_id'')), (js ''conversation_id'', JStr (js ''c1''))]"

definition ev_Hel :: json where
  "ev_Hel = JObj [(js ''type'', JStr (js ''content'')), (js ''content'', JStr (js ''Hel''))]"

definition ev_lo :: json where
  "ev_lo = JObj [(js ''type'', JStr (js ''content'')), (js ''content'', JStr (js ''lo''))]"

definition ev_no_sources :: json where
  "ev_no_sources = JObj [(js ''type'', JStr (js ''sources'')), (js ''sources'', JArr [])]"

definition ev_sources :: json where
  "ev_sources = JObj [(js ''type'', JStr (js ''sources'')),
                      (js ''sources'', JArr [JObj [(js ''page'', JNum 8)]])]"

definition ev_done :: json where
  "ev_done = JObj [(js ''type'', JStr (js ''done''))]"

definition ev_error :: json where
  "ev_error = JObj [(js ''type'', JStr (js ''error'')), (js ''error'', JStr (js ''x''))]"

definition demo_parse :: "jsstring \<Rightarrow> json option" where
  \<open>demo_parse = map_of
     [(js ''{"type":"conversation_id","conversation_id":"c1"}'', ev_conversation),
      (js ''{"type":"content","content":"Hel"}'', ev_Hel),
      (js ''{"type":"content","content":"lo"}'', ev_lo),
      (js ''{"type":"sources","sources":[]}'', ev_no_sources),
      (js ''{"type":"sources","sources":[{"page":8}]}'', ev_sources),
      (js ''{"type":"done"}'', ev_done),
      (js ''{"type":"error","error":"x"}'', ev_error),
      (js ''null'', JNull)]\<close>

definition demo_rt :: runtime where
  "demo_rt = \<lparr>JSON_parse = demo_parse, Number_toString = (\<lambda>r. [])\<rparr>"

definition demo_clock :: clock where
  "demo_clock = \<lparr>now_user = 1000, iso_user = js ''t1'', now_assistant = 1000, iso_assistant = js ''t2''\<rparr>"

definition demo_chat :: chat where
  "demo_chat = \<lparr>messages = [], input = js ''hi'', loading = False, conversationId = None,
                 requests = [], alerts = 0, console = 0\<rparr>"

definition line_conversation :: jsstring where
  \<open>line_conversation = js ''data: {"type":"conversation_id","conversation_id":"c1"}''\<close>

definition line_Hel :: jsstring where
  \<open>line_Hel = js ''data: {"type":"content","content":"Hel"}''\<close>

definition line_lo :: jsstring where
  \<open>line_lo = js ''data: {"type":"content","content":"lo"}''\<close>

definition line_no_sources :: jsstring where
  \<open>line_no_sources = js ''data: {"type":"sources","sources":[]}''\<close>

definition line_sources :: jsstring where
  \<open>line_sources = js ''data: {"type":"sources","sources":[{"page":8}]}''\<close>

definition line_done :: jsstring where
  \<open>line_done = js ''data: {"type":"done"}''\<close>

definition line_error :: jsstring where
  \<open>line_error = js ''data: {"type":"error","error":"x"}''\<close>

definition line_truncated :: jsstring where
  \<open>line_truncated = js ''data: {"type":"content","cont''\<close>

text \<open>Lines joined into one chunk, each followed by the empty line of the framing.\<close>

definition chunk_of :: "jsstring list \<Rightarrow> jsstring" where
  "chunk_of ls = concat (map (\<lambda>l. l @ [0xA, 0xA]) ls)"

definition demo_exe :: dropped_file where
  "demo_exe = \<lparr>file_name = js ''setup.exe'', file_size = 2048\<rparr>"

text \<open>A recorded metric event, and statistics as the dashboard receives them.\<close>

definition demo_event :: metric_event where
  "demo_event = \<lparr>timestamp = 150, input_tokens = 20, output_tokens = 2, cost = 1 / 1000,
                  retrieval_ms = Some 40, first_token_ms = Some 90, total_ms = 150,
                  chunk_count = 1, avg_relevance = 1, failed = False\<rparr>"

definition demo_stats :: MetricsStats where
  "demo_stats = \<lparr>total_queries = 0, tokens_total = 0, tokens_avg_per_query = 0,
                  costs_usd_total = 0, costs_usd_avg_per_query = 0, latency_ms_avg_total = 0,
                  latency_ms_avg_first_token = None, latency_ms_avg_retrieval = 0,
                  retrieval_avg_sources = 0, retrieval_avg_relevance = 0\<rparr>"

subsection \<open>Of the core pipeline\<close>

text \<open>A configuration, an index of two chunks with orthogonal vectors, a store without
  conversations, and a query on it that completes after two output units.\<close>

definition demo_cfg :: config where
  "demo_cfg = \<lparr>top_k = 3, min_relevance = 3 / 5, token_budget = 100\<rparr>"

definition chunk_hail :: chunk where
  "chunk_hail = \<lparr>document = 1, filename = ''casco.pdf'', doc_category = None, ordinal = 0,
                  page = 8, raw_text = ''hail: 100%'', token_count = 4\<rparr>"

definition chunk_theft :: chunk where
  "chunk_theft = \<lparr>document = 1, filename = ''casco.pdf'', doc_category = None, ordinal = 1,
                   page = 9, raw_text = ''theft: 90%'', token_count = 4\<rparr>"

definition demo_sys :: system where
  "demo_sys = \<lparr>index = [(chunk_hail, [1, 0]), (chunk_theft, [0, 1])],
                conversations = Map.empty, next_conversation = 1, metric_events = []\<rparr>"

definition demo_run :: query_run where
  "demo_run = \<lparr>question = ''hail?'', given_conversation = None, q_filter = None,
                started_at = 0, embedding = Inr [1, 0], retrieved_at = 40,
                units = [(''Hel'', 90), (''lo'', 120)], failure = None, ended_at = 150,
                prompt_tokens = 20, completion_tokens = 2, cost_usd = 1 / 1000\<rparr>"

subsection \<open>Of a body and its reads\<close>

text \<open>
  The lines that deliver the events of the example query, the body they make, the same
  body read in two reads of which the first ends inside the line of the first fragment,
  and a query whose generation fails after the first output unit.
\<close>

definition demo_lines :: "jsstring list" where
  "demo_lines = [line_conversation, line_Hel, line_lo, line_sources, line_done]"

definition demo_body :: jsstring where
  "demo_body = chunk_of demo_lines"

definition demo_cut_reads :: "read_result list" where
  "demo_cut_reads = [Chunk (take 80 demo_body), Chunk (drop 80 demo_body)]"


section \<open>Properties of ChatInterface\<close>

lemma dropWhile_all_iff: "(\<forall>x \<in> set (dropWhile P xs). P x) \<longleftrightarrow> (\<forall>x \<in> set xs. P x)"
  by (induction xs) auto

lemma trim_empty_iff: "trim s = [] \<longleftrightarrow> (\<forall>c \<in> set s. is_whitespace c)"
  by (simp add: trim_def dropWhile_all_iff)

lemma process_line_unlogged:
  "unlogged (fst (process_line rt aid line (unlogged s))) = unlogged (fst (process_line rt aid line s))
   \<and> snd (process_line rt aid line (unlogged s)) = snd (process_line rt aid line s)"
  by (cases s) (simp add: process_line_def unlogged_def Let_def split: option.splits)

lemma process_lines_unlogged:
  "unlogged (process_lines rt aid ls (unlogged s)) = unlogged (process_lines rt aid ls s)"
proof (induction ls arbitrary: s)
  case Nil
  show ?case by (cases s) (simp add: unlogged_def)
next
  case (Cons l ls)
  obtain a f where a: "process_line rt aid l (unlogged s) = (a, f)"
    by (cases "process_line rt aid l (unlogged s)")
  obtain b g where b: "process_line rt aid l s = (b, g)"
    by (cases "process_line rt aid l s")
  from process_line_unlogged [of rt aid l s] a b
  have eq: "unlogged a = unlogged b" "f = g" by simp_all
  show ?case
  proof (cases g)
    case Next
    have "unlogged (process_lines rt aid ls a) = unlogged (process_lines rt aid ls (unlogged a))"
      by (simp add: Cons.IH)
    also have "\<dots> = unlogged (process_lines rt aid ls b)"
      by (simp add: eq Cons.IH)
    finally show ?thesis using a b eq Next by simp
  next
    case Break
    then show ?thesis using a b eq by simp
  qed
qed

lemma process_line_malformed:
  assumes "\<not> startsWith line (js ''data: '') \<or> JSON_parse rt (slice line 6) = None"
  shows "process_line rt aid line (st, full, srcs) =
           ((st\<lparr>console := console st + (if startsWith line (js ''data: '') then 1 else 0)\<rparr>,
             full, srcs), Next)"
  using assms by (auto simp: process_line_def)

lemma process_lines_skip:
  assumes "\<not> startsWith line (js ''data: '') \<or> JSON_parse rt (slice line 6) = None"
  shows "unlogged (process_lines rt aid (pre @ line # post) s)
         = unlogged (process_lines rt aid (pre @ post) s)"
proof (induction pre arbitrary: s)
  case Nil
  obtain st full srcs where s: "s = (st, full, srcs)" by (cases s)
  define s' where
    "s' = (st\<lparr>console := console st + (if startsWith line (js ''data: '') then 1 else 0)\<rparr>,
           full, srcs)"
  have pl: "process_line rt aid line s = (s', Next)"
    unfolding s s'_def by (rule process_line_malformed [OF assms])
  have u: "unlogged s' = unlogged s"
    by (simp add: s s'_def unlogged_def)
  have "unlogged (process_lines rt aid post s') = unlogged (process_lines rt aid post (unlogged s'))"
    by (simp add: process_lines_unlogged)
  also have "\<dots> = unlogged (process_lines rt aid post s)"
    by (simp add: u process_lines_unlogged)
  finally show ?case by (simp add: pl)
next
  case (Cons l pre)
  show ?case
    by (cases "process_line rt aid l s") (simp add: Cons.IH split: flow.splits)
qed

lemma read_loop_isl: "isl (read_loop rt aid reads s) \<longleftrightarrow> ReadFailure \<in> set reads"
  by (induction rt aid reads s rule: read_loop.induct) auto

lemmas demo_defs =
  demo_rt_def demo_parse_def demo_clock_def demo_chat_def chunk_of_def
  ev_conversation_def ev_Hel_def ev_lo_def ev_no_sources_def ev_sources_def ev_done_def
  ev_error_def line_conversation_def line_Hel_def line_lo_def
  line_no_sources_def line_sources_def line_done_def
  line_error_def line_truncated_def

lemmas chat_defs =
  handleSend_def on_error_def process_line_def startsWith_def slice_def set_content_def
  set_sources_def ToString_def trim_def is_whitespace_def js_def Let_def

text \<open>
  C9. A call of \<open>handleSend\<close> while the input is empty or consists of whitespace only,
  or while \<open>loading\<close> is true, returns at once: the component is unchanged, so the
  message list and the conversation identity are as before and no request is issued.
\<close>

theorem handleSend_guard:
  assumes "(\<forall>c \<in> set (input st). is_whitespace c) \<or> loading st"
  shows "handleSend rt clk net st = st"
  using assms by (auto simp: handleSend_def trim_empty_iff)

theorem handleSend_guard_witness:
  "list_all is_whitespace (input (demo_chat\<lparr>input := js '' ''\<rparr>))
   \<and> handleSend demo_rt demo_clock (Response True (Some [Chunk (chunk_of [line_Hel, line_done])]))
        (demo_chat\<lparr>input := js '' ''\<rparr>) = demo_chat\<lparr>input := js '' ''\<rparr>
   \<and> requests (handleSend demo_rt demo_clock FetchRejected (demo_chat\<lparr>loading := True\<rparr>)) = []
   \<and> requests (handleSend demo_rt demo_clock FetchRejected demo_chat) \<noteq> []"
proof -
  have h1: "(\<forall>c \<in> set (input (demo_chat\<lparr>input := js '' ''\<rparr>)). is_whitespace c)
      \<or> loading (demo_chat\<lparr>input := js '' ''\<rparr>)"
    by (simp add: demo_chat_def js_def is_whitespace_def)
  have h2: "(\<forall>c \<in> set (input (demo_chat\<lparr>loading := True\<rparr>)). is_whitespace c)
      \<or> loading (demo_chat\<lparr>loading := True\<rparr>)"
    by simp
  have r: "requests (handleSend demo_rt demo_clock FetchRejected demo_chat) \<noteq> []"
    by (simp add: demo_defs chat_defs)
  have w: "list_all is_whitespace (input (demo_chat\<lparr>input := js '' ''\<rparr>))"
    by (simp add: demo_chat_def js_def is_whitespace_def)
  show ?thesis
    using w r
      handleSend_guard [OF h1, of demo_rt demo_clock
        "Response True (Some [Chunk (chunk_of [line_Hel, line_done])])"]
      handleSend_guard [OF h2, of demo_rt demo_clock FetchRejected]
    by (simp add: demo_chat_def)
qed

text \<open>
  C8. A line that does not start with \<open>data: \<close>, or whose payload \<open>JSON.parse\<close> rejects,
  is skipped: it changes neither the messages, the conversation identity, the
  accumulated text nor the sources, the rejected payload is logged, and the loop goes
  on to the next line. Wherever such a line stands among the lines of a chunk, the
  loop ends in the state it ends in without the line, console output apart. Only a
  failing read makes the read loop end with an exception, never a line.
\<close>

theorem malformed_line_skipped:
  assumes "\<not> startsWith line (js ''data: '') \<or> JSON_parse rt (slice line 6) = None"
  shows "process_line rt aid line (st, full, srcs) =
           ((st\<lparr>console := console st + (if startsWith line (js ''data: '') then 1 else 0)\<rparr>,
             full, srcs), Next)
         \<and> unlogged (process_lines rt aid (pre @ line # post) s)
             = unlogged (process_lines rt aid (pre @ post) s)
         \<and> (isl (read_loop rt aid reads s) \<longleftrightarrow> ReadFailure \<in> set reads)"
  using process_line_malformed [OF assms] process_lines_skip [OF assms] read_loop_isl
  by simp

theorem malformed_line_skipped_witness:
  "startsWith line_truncated (js ''data: '')
   \<and> JSON_parse demo_rt (slice line_truncated 6) = None
   \<and> process_line demo_rt 1001 line_truncated (demo_chat, js ''Hel'', None)
       = ((demo_chat\<lparr>console := 1\<rparr>, js ''Hel'', None), Next)
   \<and> unlogged (process_lines demo_rt 1001 ([line_Hel] @ line_truncated # [line_lo])
                 (demo_chat, [], None))
       = unlogged (process_lines demo_rt 1001 ([line_Hel] @ [line_lo]) (demo_chat, [], None))
   \<and> fst (snd (process_lines demo_rt 1001 ([line_Hel] @ line_truncated # [line_lo])
                 (demo_chat, [], None))) = js ''Hello''"
proof -
  have h: "\<not> startsWith line_truncated (js ''data: '')
      \<or> JSON_parse demo_rt (slice line_truncated 6) = None"
    by (simp add: demo_defs chat_defs)
  have p: "startsWith line_truncated (js ''data: '')"
    by (simp add: demo_defs chat_defs)
  have e: "fst (snd (process_lines demo_rt 1001 ([line_Hel] @ line_truncated # [line_lo])
                 (demo_chat, [], None))) = js ''Hello''"
    by (simp add: demo_defs chat_defs)
  have n: "JSON_parse demo_rt (slice line_truncated 6) = None"
    by (simp add: demo_defs chat_defs)
  show ?thesis
    using n p e
      malformed_line_skipped [OF h, of 1001 demo_chat "js ''Hel''" None "[line_Hel]" "[line_lo]"
        "(demo_chat, [], None)" "[]"]
    by (simp add: demo_chat_def)
qed

text \<open>
  C10. There is a file whose name ends in none of \<open>.pdf\<close>, \<open>.docx\<close>, \<open>.txt\<close> and that the
  drop handler selects all the same, in whatever state the component is, and that
  \<open>handleUpload\<close> then passes to \<open>documentsApi.uploadDocument\<close>: \<open>handleDrop\<close> takes the
  first dropped file without looking at its name or type. Nor does \<open>handleFileSelect\<close>
  look at it: the restriction is in the \<open>accept\<close> attribute of the file input alone.
\<close>

theorem handleDrop_ignores_accept:
  "\<exists>f. \<not> matches_accept (file_name f)
       \<and> (\<forall>fs st. selectedFile (handleDrop (Some (f # fs)) st) = Some f)
       \<and> (\<forall>fs st r. fst (last (uploaded (handleUpload r (handleDrop (Some (f # fs)) st)))) = f)
       \<and> (\<forall>fs st. selectedFile (handleFileSelect (Some (f # fs)) st) = Some f)"
proof -
  have "\<not> matches_accept (file_name demo_exe)"
    by (simp add: matches_accept_def accept_def demo_exe_def js_def lower_def suffix_def)
  moreover have "selectedFile (handleDrop (Some (f # fs)) st) = Some f" for f fs st
    by (simp add: handleDrop_def)
  moreover have "fst (last (uploaded (handleUpload r (handleDrop (Some (f # fs)) st)))) = f"
    for f fs st r
    by (simp add: handleDrop_def handleUpload_def Let_def)
  moreover have "selectedFile (handleFileSelect (Some (f # fs)) st) = Some f" for f fs st
    by (simp add: handleFileSelect_def)
  ultimately show ?thesis by blast
qed

section \<open>Properties of the streamed answer\<close>

lemma process_line_flow:
  "snd (process_line rt aid line s) = Break \<longleftrightarrow> has_tag rt ''done'' line"
  by (cases s)
     (auto simp: process_line_def has_tag_def event_of_def js_def Let_def split: option.splits)

lemma process_line_full:
  "fst (snd (fst (process_line rt aid line (st, full, srcs))))
     = full @ (case fragment_of rt line of None \<Rightarrow> [] | Some f \<Rightarrow> f)"
  by (auto simp: process_line_def fragment_of_def event_of_def js_def Let_def split: option.splits)

lemma last_set_content:
  "ms \<noteq> [] \<Longrightarrow> msg_id (last ms) = aid \<Longrightarrow>
     set_content aid full ms \<noteq> [] \<and> msg_id (last (set_content aid full ms)) = aid
     \<and> content (last (set_content aid full ms)) = full"
  by (simp add: set_content_def last_map)

lemma last_set_sources:
  "ms \<noteq> [] \<Longrightarrow> msg_id (last ms) = aid \<Longrightarrow>
     set_sources aid v ms \<noteq> [] \<and> msg_id (last (set_sources aid v ms)) = aid
     \<and> content (last (set_sources aid v ms)) = content (last ms)
     \<and> sources (last (set_sources aid v ms)) = v"
  by (simp add: set_sources_def last_map)

lemma process_line_streams_into:
  assumes "streams_into aid s"
  shows "streams_into aid (fst (process_line rt aid line s))"
proof -
  obtain st full srcs where s: "s = (st, full, srcs)" by (cases s)
  from assms have m: "messages st \<noteq> []" "msg_id (last (messages st)) = aid"
    "content (last (messages st)) = full"
    by (simp_all add: s streams_into_def)
  show ?thesis
    using m last_set_content [OF m(1,2)] last_set_sources [OF m(1,2)]
    by (simp add: s process_line_def streams_into_def Let_def split: option.splits)
qed

lemma process_lines_full:
  "fst (snd (process_lines rt aid ls (st, full, srcs)))
     = full @ concat (fragments_of_lines rt ls)"
proof (induction ls arbitrary: st full srcs)
  case Nil
  show ?case by (simp add: fragments_of_lines_def map_filter_simps)
next
  case (Cons l ls)
  obtain st' full' srcs' fl
    where p: "process_line rt aid l (st, full, srcs) = ((st', full', srcs'), fl)"
    by (metis prod.collapse)
  from process_line_full [of rt aid l st full srcs] p
  have f: "full' = full @ (case fragment_of rt l of None \<Rightarrow> [] | Some f \<Rightarrow> f)" by simp
  from process_line_flow [of rt aid l "(st, full, srcs)"] p
  have b: "fl = Break \<longleftrightarrow> has_tag rt ''done'' l" by simp
  have nd: "has_tag rt ''done'' l \<Longrightarrow> fragment_of rt l = None"
    by (auto simp: has_tag_def fragment_of_def js_def split: option.splits)
  show ?case
  proof (cases fl)
    case Next
    with b have "\<not> has_tag rt ''done'' l" by simp
    then show ?thesis
      using p Next f Cons.IH [of st' full' srcs']
      by (simp add: fragments_of_lines_def map_filter_simps split: option.splits)
  next
    case Break
    with b have d: "has_tag rt ''done'' l" by simp
    then show ?thesis
      using p Break f nd [OF d] by (simp add: fragments_of_lines_def map_filter_simps)
  qed
qed

lemma process_lines_streams_into:
  "streams_into aid s \<Longrightarrow> streams_into aid (process_lines rt aid ls s)"
proof (induction ls arbitrary: s)
  case Nil
  then show ?case by simp
next
  case (Cons l ls)
  from process_line_streams_into [OF Cons.prems, of rt l]
  have "streams_into aid (fst (process_line rt aid l s))" .
  then show ?case
    by (cases "process_line rt aid l s") (auto split: flow.splits intro: Cons.IH)
qed

lemma read_loop_full:
  "fst (snd (outcome (read_loop rt aid reads (st, full, srcs))))
     = full @ concat (fragments_taken rt reads)"
proof (induction reads arbitrary: st full srcs)
  case Nil
  show ?case by (simp add: outcome_def fragments_taken_def)
next
  case (Cons r reads)
  show ?case
  proof (cases r)
    case ReadFailure
    then show ?thesis by (simp add: outcome_def fragments_taken_def)
  next
    case (Chunk c)
    obtain st' full' srcs'
      where p: "process_lines rt aid (split 0xA c) (st, full, srcs) = (st', full', srcs')"
      by (metis prod.collapse)
    from process_lines_full [of rt aid "split 0xA c" st full srcs] p
    have "full' = full @ concat (fragments_of_lines rt (split 0xA c))" by simp
    then show ?thesis
      using Chunk p Cons.IH [of st' full' srcs']
      by (simp add: fragments_taken_def fragments_of_lines_def lines_seen_def)
  qed
qed

lemma read_loop_streams_into:
  "streams_into aid s \<Longrightarrow> streams_into aid (outcome (read_loop rt aid reads s))"
proof (induction rt aid reads s rule: read_loop.induct)
  case (1 rt aid s)
  then show ?case by (simp add: outcome_def)
next
  case (2 rt aid rs s)
  then show ?case by (simp add: outcome_def)
next
  case (3 rt aid c rs s)
  then show ?case by (simp add: process_lines_streams_into)
qed

lemma handleSend_answer:
  assumes "trim (input st) \<noteq> []" "\<not> loading st" "ReadFailure \<notin> set reads"
  shows "content (last (messages (handleSend rt clk (Response True (Some reads)) st)))
           = concat (fragments_taken rt reads)"
proof -
  define aid where "aid = now_assistant clk + 1"
  define st1 where "st1 = st\<lparr>input := [], loading := True,
     messages := messages st @
       [\<lparr>msg_id = now_user clk, role = User, content = input st,
         created_at = iso_user clk, sources = None\<rparr>] @
       [\<lparr>msg_id = aid, role = Assistant, content = [],
         created_at = iso_assistant clk, sources = None\<rparr>],
     requests := requests st @
       [\<lparr>req_message = input st, req_conversation_id = conversationId st\<rparr>]\<rparr>"
  have inv: "streams_into aid (st1, [], Some (JArr []))"
    by (simp add: streams_into_def st1_def)
  from assms(3) have "\<not> isl (read_loop rt aid reads (st1, [], Some (JArr [])))"
    by (simp add: read_loop_isl)
  then obtain s where r: "read_loop rt aid reads (st1, [], Some (JArr [])) = Inr s"
    by (cases "read_loop rt aid reads (st1, [], Some (JArr []))") auto
  then have o: "outcome (read_loop rt aid reads (st1, [], Some (JArr []))) = s"
    by (simp add: outcome_def)
  from read_loop_streams_into [OF inv, of rt reads] o have "streams_into aid s" by simp
  moreover from read_loop_full [of rt aid reads st1 "[]" "Some (JArr [])"] o
  have "fst (snd s) = concat (fragments_taken rt reads)" by simp
  ultimately have "content (last (messages (fst s))) = concat (fragments_taken rt reads)"
    by (cases s) (simp add: streams_into_def)
  moreover have "handleSend rt clk (Response True (Some reads)) st = (fst s)\<lparr>loading := False\<rparr>"
    using assms(1,2) r by (simp add: handleSend_def Let_def aid_def st1_def)
  ultimately show ?thesis by simp
qed

lemma emitted_fragments_simps [simp]:
  "emitted_fragments [] = []"
  "emitted_fragments (ContentFragment t # evs) = t # emitted_fragments evs"
  "emitted_fragments (ConversationAssigned c # evs) = emitted_fragments evs"
  "emitted_fragments (SourcesAttached ss # evs) = emitted_fragments evs"
  "emitted_fragments (Completed c ss # evs) = emitted_fragments evs"
  "emitted_fragments (Failed e # evs) = emitted_fragments evs"
  by (simp_all add: emitted_fragments_def map_filter_simps)

lemma emitted_fragments_append [simp]:
  "emitted_fragments (xs @ ys) = emitted_fragments xs @ emitted_fragments ys"
  by (simp add: emitted_fragments_def map_filter_def)

lemma emitted_fragments_map [simp]:
  "emitted_fragments (map ContentFragment ts) = ts"
  "emitted_fragments (map (ContentFragment \<circ> f) xs) = map f xs"
  by (induction ts, simp_all) (induction xs, simp_all)

lemma identity_first:
  "emitted_fragments (takeWhile (\<lambda>e. \<not> is_assigned e) (events (answer_query cfg run sys))) = []"
  by (simp add: answer_query_def Let_def split: sum.splits option.splits prod.splits)

lemma fragments_in_order:
  "emitted_fragments (events (answer_query cfg run sys))
     = (if reaches_generation run sys then map fst (units run) else [])"
  by (simp add: answer_query_def reaches_generation_def Let_def
           split: sum.splits option.splits prod.splits)

lemmas pipeline_defs =
  answer_query_def resolve_conversation_def createConversation_def getHistory_def
  appendMessage_def persist_turn_def with_metric_def metric_of_def record_event_def
  query_def assemble_def source_of_def relevance_def cosine_def dot_def mean_def Let_def

lemmas pipeline_demo_defs =
  demo_cfg_def demo_sys_def demo_run_def chunk_hail_def chunk_theft_def

section \<open>Properties of a failed query\<close>

lemma others_set_content [simp]: "others aid (set_content aid full ms) = others aid ms"
  by (induction ms) (simp_all add: others_def set_content_def)

lemma others_set_sources [simp]: "others aid (set_sources aid v ms) = others aid ms"
  by (induction ms) (simp_all add: others_def set_sources_def)

lemma process_line_others:
  "others aid (messages (fst (fst (process_line rt aid line s)))) = others aid (messages (fst s))"
  by (cases s) (simp add: process_line_def Let_def split: option.splits)

lemma process_lines_others:
  "others aid (messages (fst (process_lines rt aid ls s))) = others aid (messages (fst s))"
proof (induction ls arbitrary: s)
  case Nil
  show ?case by simp
next
  case (Cons l ls)
  obtain s' fl where p: "process_line rt aid l s = (s', fl)"
    by (cases "process_line rt aid l s")
  with process_line_others [of aid rt l s]
  have "others aid (messages (fst s')) = others aid (messages (fst s))" by simp
  then show ?case
    using p Cons.IH [of s'] by (cases fl) simp_all
qed

lemma read_loop_others:
  "others aid (messages (fst (outcome (read_loop rt aid reads s)))) = others aid (messages (fst s))"
  by (induction rt aid reads s rule: read_loop.induct)
     (simp_all add: outcome_def process_lines_others)

lemma process_line_alerts:
  "alerts (fst (fst (process_line rt aid line s))) = alerts (fst s)"
  by (cases s) (simp add: process_line_def Let_def split: option.splits)

lemma process_lines_alerts:
  "alerts (fst (process_lines rt aid ls s)) = alerts (fst s)"
proof (induction ls arbitrary: s)
  case Nil
  show ?case by simp
next
  case (Cons l ls)
  show ?case
    using process_line_alerts [of rt aid l s] Cons.IH [of "fst (process_line rt aid l s)"]
    by (cases "process_line rt aid l s") (simp split: flow.splits)
qed

lemma read_loop_alerts:
  "alerts (fst (outcome (read_loop rt aid reads s))) = alerts (fst s)"
  by (induction rt aid reads s rule: read_loop.induct)
     (simp_all add: outcome_def process_lines_alerts)

lemma handleSend_throws:
  assumes "trim (input st) \<noteq> []" and "\<not> loading st" and "throws net"
  shows "messages (handleSend rt clk net st)
           = others (now_assistant clk + 1)
               (messages st @ [\<lparr>msg_id = now_user clk, role = User, content = input st,
                                 created_at = iso_user clk, sources = None\<rparr>])
         \<and> alerts (handleSend rt clk net st) = alerts st + 1
         \<and> \<not> loading (handleSend rt clk net st)"
proof -
  define aid where "aid = now_assistant clk + 1"
  define st1 where "st1 = st\<lparr>input := [], loading := True,
     messages := messages st @
       [\<lparr>msg_id = now_user clk, role = User, content = input st,
         created_at = iso_user clk, sources = None\<rparr>] @
       [\<lparr>msg_id = aid, role = Assistant, content = [],
         created_at = iso_assistant clk, sources = None\<rparr>],
     requests := requests st @
       [\<lparr>req_message = input st, req_conversation_id = conversationId st\<rparr>]\<rparr>"
  have base: "others aid (messages st1)
      = others aid (messages st @ [\<lparr>msg_id = now_user clk, role = User, content = input st,
                                     created_at = iso_user clk, sources = None\<rparr>])"
    by (simp add: st1_def others_def)
  have caught: "messages (on_error aid s) = others aid (messages s)
      \<and> alerts (on_error aid s) = alerts s + 1" for s
    by (simp add: on_error_def others_def)
  have unfold: "handleSend rt clk net st =
      (case net of
         FetchRejected \<Rightarrow> on_error aid st1
       | Response ok body \<Rightarrow>
           if \<not> ok then on_error aid st1
           else (case body of
                   None \<Rightarrow> st1
                 | Some reads \<Rightarrow>
                     (case read_loop rt aid reads (st1, [], Some (JArr [])) of
                        Inl s \<Rightarrow> on_error aid (fst s)
                      | Inr s \<Rightarrow> fst s)))\<lparr>loading := False\<rparr>"
    using assms(1,2)
    by (simp add: handleSend_def Let_def aid_def st1_def
          split: fetch_result.splits option.splits sum.splits)
  show ?thesis
  proof (cases net)
    case FetchRejected
    then show ?thesis
      using unfold caught [of st1] base by (simp add: aid_def st1_def)
  next
    case (Response ok body)
    show ?thesis
    proof (cases ok)
      case False
      then show ?thesis
        using Response unfold caught [of st1] base by (simp add: aid_def st1_def)
    next
      case True
      with assms(3) Response obtain reads where b: "body = Some reads" "ReadFailure \<in> set reads"
        by (auto simp: throws_def split: option.splits)
      then have "isl (read_loop rt aid reads (st1, [], Some (JArr [])))"
        by (simp add: read_loop_isl)
      then obtain s where r: "read_loop rt aid reads (st1, [], Some (JArr [])) = Inl s"
        by (cases "read_loop rt aid reads (st1, [], Some (JArr []))") auto
      from read_loop_others [of aid rt reads "(st1, [], Some (JArr []))"] r
      have o: "others aid (messages (fst s)) = others aid (messages st1)"
        by (simp add: outcome_def)
      from read_loop_alerts [of rt aid reads "(st1, [], Some (JArr []))"] r
      have a: "alerts (fst s) = alerts st"
        by (simp add: outcome_def st1_def)
      show ?thesis
        using Response True b r unfold caught [of "fst s"] o base a
        by (simp add: aid_def)
    qed
  qed
qed

lemma history_of_with_metric [simp]: "history_of (with_metric m sys) c = history_of sys c"
  by (simp add: history_of_def getHistory_def with_metric_def)

lemma metric_events_with_metric [simp]:
  "metric_events (with_metric m sys) = metric_events sys @ [m]"
  by (simp add: with_metric_def record_event_def)

lemma metric_of_simps [simp]:
  "failed (metric_of run retr first srcs f) = f"
  "total_ms (metric_of run retr first srcs f) = ended_at run - started_at run"
  "avg_relevance (metric_of run retr first srcs f) = mean (map relevance_score srcs)"
  "chunk_count (metric_of run retr first srcs f) = length srcs"
  by (simp_all add: metric_of_def)

lemma history_of_createConversation:
  "conversations sys (next_conversation sys) = None \<Longrightarrow>
     history_of (snd (createConversation sys)) c = history_of sys c"
  by (simp add: history_of_def getHistory_def createConversation_def)

lemma history_of_resolve:
  "resolve_conversation run sys = Inr (cid, sys1) \<Longrightarrow>
   conversations sys (next_conversation sys) = None \<Longrightarrow>
     history_of sys1 c = history_of sys c"
  using history_of_createConversation [of sys c]
  by (auto simp: resolve_conversation_def split: option.splits sum.splits)

lemma metric_events_resolve:
  "resolve_conversation run sys = Inr (cid, sys1) \<Longrightarrow> metric_events sys1 = metric_events sys"
  by (auto simp: resolve_conversation_def createConversation_def split: option.splits sum.splits)

text \<open>
  A query whose generation fails ends in \<open>ERROR\<close>. In a store whose next conversation
  identity is not in use, the history of every conversation is afterwards what it was
  before, so no message is persisted; and exactly one metric event is appended, marked
  failed, whose total latency is the time from the start to the failure.
\<close>

lemma failed_query:
  assumes "failure run = Some e" and "conversations sys (next_conversation sys) = None"
  shows "last (trace (answer_query cfg run sys)) = ERROR
         \<and> history_of (after (answer_query cfg run sys)) c = history_of sys c
         \<and> butlast (metric_events (after (answer_query cfg run sys))) = metric_events sys
         \<and> failed (last (metric_events (after (answer_query cfg run sys))))
         \<and> total_ms (last (metric_events (after (answer_query cfg run sys))))
             = ended_at run - started_at run"
proof (cases "resolve_conversation run sys")
  case (Inl err)
  then show ?thesis
    by (simp add: answer_query_def)
next
  case (Inr p)
  obtain cid sys1 where p: "p = (cid, sys1)" by (cases p)
  note h = history_of_resolve [OF Inr [unfolded p] assms(2), of c]
    and m = metric_events_resolve [OF Inr [unfolded p]]
  show ?thesis
    using assms(1) Inr p h m
    by (cases "embedding run") (simp_all add: answer_query_def Let_def)
qed

section \<open>Properties of the dispatch on the event tag\<close>


section \<open>From the events of a query to the answer displayed\<close>

text \<open>
  When every read holds whole lines, and no line before the last has the tag \<open>done\<close>,
  the fragments the read loop takes are the content fragments of the body.
\<close>

lemma split_line: "d \<notin> set l \<Longrightarrow> split d (l @ d # rest) = l # split d rest"
  by (induction l) auto

lemma split_chunk_of:
  "list_all (\<lambda>l. 0xA \<notin> set l) ls \<Longrightarrow>
     split 0xA (chunk_of ls @ rest) = concat (map (\<lambda>l. [l, []]) ls) @ split 0xA rest"
proof (induction ls)
  case Nil
  show ?case by (simp add: chunk_of_def)
next
  case (Cons l ls)
  then have l: "0xA \<notin> set l" and ls: "list_all (\<lambda>l. 0xA \<notin> set l) ls"
    by simp_all
  have "chunk_of (l # ls) @ rest = l @ 0xA # (0xA # chunk_of ls @ rest)"
    by (simp add: chunk_of_def)
  then have "split 0xA (chunk_of (l # ls) @ rest) = l # split 0xA (0xA # chunk_of ls @ rest)"
    using split_line [OF l] by simp
  also have "\<dots> = l # [] # split 0xA (chunk_of ls @ rest)"
    by simp
  finally show ?case
    using Cons.IH [OF ls] by simp
qed

lemma chunk_of_concat: "concat (map chunk_of lss) = chunk_of (concat lss)"
  by (induction lss) (simp_all add: chunk_of_def)

lemma event_of_empty_line [simp]: "event_of rt [] = None"
  by (simp add: event_of_def startsWith_def js_def)

lemma fragment_of_empty_line [simp]: "fragment_of rt [] = None"
  by (simp add: fragment_of_def)

lemma has_tag_empty_line [simp]: "\<not> has_tag rt t []"
  by (simp add: has_tag_def)

lemma done_no_fragment: "has_tag rt ''done'' l \<Longrightarrow> fragment_of rt l = None"
  by (auto simp: has_tag_def fragment_of_def js_def split: option.splits)

lemma map_filter_spaced:
  "List.map_filter (fragment_of rt) (concat (map (\<lambda>l. [l, []]) ls) @ [[]])
     = List.map_filter (fragment_of rt) ls"
  by (induction ls) (simp_all add: map_filter_simps split: option.splits)

lemma taken_of_whole_lines:
  assumes "list_all (\<lambda>l. \<not> has_tag rt ''done'' l) (butlast ls)"
  shows "List.map_filter (fragment_of rt)
           (takeWhile (\<lambda>l. \<not> has_tag rt ''done'' l) (concat (map (\<lambda>l. [l, []]) ls) @ [[]]))
         = List.map_filter (fragment_of rt) ls"
  using assms
proof (induction ls)
  case Nil
  show ?case by (simp add: map_filter_simps)
next
  case (Cons l ls)
  show ?case
  proof (cases "ls = []")
    case True
    then show ?thesis
      by (cases "has_tag rt ''done'' l")
         (simp_all add: map_filter_simps done_no_fragment split: option.splits)
  next
    case False
    with Cons.prems have "\<not> has_tag rt ''done'' l"
      and "list_all (\<lambda>l. \<not> has_tag rt ''done'' l) (butlast ls)"
      by simp_all
    then show ?thesis
      using Cons.IH by (simp add: map_filter_simps split: option.splits)
  qed
qed

lemma butlast_concat_part:
  assumes "list_all P (butlast (concat lss))" and "ls \<in> set lss"
  shows "list_all P (butlast ls)"
  using assms
proof (induction lss)
  case Nil
  then show ?case by simp
next
  case (Cons a lss)
  show ?case
  proof (cases "concat lss = []")
    case True
    then have e: "\<forall>x \<in> set lss. x = []" by simp
    from Cons.prems(2) have "ls = a \<or> ls \<in> set lss" by simp
    then show ?thesis
    proof
      assume "ls = a"
      with Cons.prems(1) True show ?thesis by simp
    next
      assume "ls \<in> set lss"
      with e have "ls = []" by blast
      then show ?thesis by simp
    qed
  next
    case False
    then have "butlast (concat (a # lss)) = a @ butlast (concat lss)"
      by (auto simp: butlast_append)
    with Cons.prems(1) have a: "list_all P a" and r: "list_all P (butlast (concat lss))"
      by simp_all
    from Cons.prems(2) have "ls = a \<or> ls \<in> set lss" by simp
    then show ?thesis
    proof
      assume "ls = a"
      with a show ?thesis by (simp add: list_all_iff) (meson in_set_butlastD)
    next
      assume "ls \<in> set lss"
      with r Cons.IH show ?thesis by simp
    qed
  qed
qed

lemma whole_lines_taken:
  assumes nl: "list_all (\<lambda>l. 0xA \<notin> set l) (concat lss)"
    and last_done: "list_all (\<lambda>l. \<not> has_tag rt ''done'' l) (butlast (concat lss))"
  shows "fragments_taken rt (map (\<lambda>ls. Chunk (chunk_of ls)) lss)
           = body_fragments rt (body_read (map (\<lambda>ls. Chunk (chunk_of ls)) lss))"
proof -
  have cr: "chunks_read (map (\<lambda>ls. Chunk (chunk_of ls)) xs) = map chunk_of xs" for xs
    by (induction xs) simp_all
  have body: "body_read (map (\<lambda>ls. Chunk (chunk_of ls)) lss) = chunk_of (concat lss)"
    by (simp add: body_read_def cr chunk_of_concat)
  have "body_fragments rt (chunk_of (concat lss)) = List.map_filter (fragment_of rt) (concat lss)"
    using split_chunk_of [OF nl, of "[]"] by (simp add: body_fragments_def map_filter_spaced)
  moreover have "fragments_taken rt (map (\<lambda>ls. Chunk (chunk_of ls)) lss)
      = concat (map (List.map_filter (fragment_of rt)) lss)"
  proof -
    have "List.map_filter (fragment_of rt) (lines_seen rt (chunk_of ls))
        = List.map_filter (fragment_of rt) ls" if "ls \<in> set lss" for ls
    proof -
      from nl that have "list_all (\<lambda>l. 0xA \<notin> set l) ls"
        by (auto simp: list_all_iff)
      from split_chunk_of [OF this, of "[]"]
      have "split 0xA (chunk_of ls) = concat (map (\<lambda>l. [l, []]) ls) @ [[]]" by simp
      then show ?thesis
        using taken_of_whole_lines [OF butlast_concat_part [OF last_done that]]
        by (simp add: lines_seen_def)
    qed
    then show ?thesis
      by (simp add: fragments_taken_def cr comp_def cong: map_cong)
  qed
  moreover have "concat (map (List.map_filter (fragment_of rt)) lss)
      = List.map_filter (fragment_of rt) (concat lss)"
    by (induction lss) (simp_all add: map_filter_def)
  ultimately show ?thesis
    by (simp add: body)
qed

lemma body_fragments_chunk_of:
  assumes "list_all (\<lambda>l. 0xA \<notin> set l) ls"
  shows "body_fragments rt (chunk_of ls) = List.map_filter (fragment_of rt) ls"
  using split_chunk_of [OF assms, of "[]"] by (simp add: body_fragments_def map_filter_spaced)

lemma has_tag_unique: "has_tag rt a l \<Longrightarrow> has_tag rt b l \<Longrightarrow> js a = js b"
  by (auto simp: has_tag_def split: option.splits)

lemma tags_differ:
  "js ''done'' \<noteq> js ''conversation_id''" "js ''done'' \<noteq> js ''content''"
  "js ''done'' \<noteq> js ''sources''" "js ''sources'' \<noteq> js ''conversation_id''"
  "js ''sources'' \<noteq> js ''content''" "js ''content'' \<noteq> js ''conversation_id''"
  by (simp_all add: js_def)

lemma carries_fragment:
  "carries rt l e \<Longrightarrow> fragment_of rt l = map_option js (fragment_text e)"
proof (cases e)
  case (ContentFragment t)
  assume "carries rt l e"
  with ContentFragment show ?thesis
    by (auto simp: has_tag_def prop_of_def fragment_of_def ToString_def split: option.splits)
next
  case (ConversationAssigned c)
  assume "carries rt l e"
  with ConversationAssigned tags_differ show ?thesis
    by (auto simp: has_tag_def fragment_of_def split: option.splits)
next
  case (SourcesAttached ss)
  assume "carries rt l e"
  with SourcesAttached tags_differ show ?thesis
    by (auto simp: has_tag_def fragment_of_def split: option.splits)
next
  case (Completed c ss)
  assume "carries rt l e"
  with Completed tags_differ show ?thesis
    by (auto simp: has_tag_def fragment_of_def split: option.splits)
next
  case (Failed k)
  assume "carries rt l e"
  with Failed show ?thesis
    by (auto simp: has_tag_def fragment_of_def split: option.splits)
qed

lemma carries_done: "carries rt l e \<Longrightarrow> \<not> is_terminal e \<Longrightarrow> \<not> has_tag rt ''done'' l"
  using tags_differ by (cases e) (auto dest: has_tag_unique)

lemma delivered_fragments:
  "list_all2 (carries rt) ls evs \<Longrightarrow>
     List.map_filter (fragment_of rt) ls = map js (emitted_fragments evs)"
proof (induction ls evs rule: list_all2_induct)
  case Nil
  show ?case by (simp add: map_filter_simps emitted_fragments_def)
next
  case (Cons l ls e evs)
  from carries_fragment [OF Cons.hyps(1)] Cons.IH show ?case
    by (cases "fragment_text e") (simp_all add: map_filter_simps emitted_fragments_def)
qed

lemma delivered_done:
  "list_all2 (carries rt) ls evs \<Longrightarrow> list_all (\<lambda>e. \<not> is_terminal e) (butlast evs) \<Longrightarrow>
     list_all (\<lambda>l. \<not> has_tag rt ''done'' l) (butlast ls)"
proof (induction ls evs rule: list_all2_induct)
  case Nil
  show ?case by simp
next
  case (Cons l ls e evs)
  from Cons.hyps(2) have len: "ls = [] \<longleftrightarrow> evs = []"
    by (auto dest: list_all2_lengthD)
  show ?case
  proof (cases "evs = []")
    case True
    with len show ?thesis by simp
  next
    case False
    with len Cons.prems have "\<not> is_terminal e" "list_all (\<lambda>e. \<not> is_terminal e) (butlast evs)"
      by simp_all
    with len False Cons.IH carries_done [OF Cons.hyps(1)] show ?thesis by simp
  qed
qed

lemma terminal_event_last:
  "list_all (\<lambda>e. \<not> is_terminal e) (butlast (events (answer_query cfg run sys)))
   \<and> events (answer_query cfg run sys) \<noteq> []
   \<and> is_terminal (last (events (answer_query cfg run sys)))"
proof -
  have f: "list_all (\<lambda>e. \<not> is_terminal e) (map ContentFragment ts)" for ts
    by (induction ts) simp_all
  show ?thesis
    using f [of "map fst (units run)"]
    by (simp add: answer_query_def Let_def butlast_append
          split: sum.splits option.splits prod.splits)
qed

lemma read_loop_alerts_kept:
  assumes "trim (input st) \<noteq> []" and "\<not> loading st" and "ReadFailure \<notin> set reads"
  shows "alerts (handleSend rt clk (Response True (Some reads)) st) = alerts st"
proof -
  define aid where "aid = now_assistant clk + 1"
  define st1 where "st1 = st\<lparr>input := [], loading := True,
     messages := messages st @
       [\<lparr>msg_id = now_user clk, role = User, content = input st,
         created_at = iso_user clk, sources = None\<rparr>] @
       [\<lparr>msg_id = aid, role = Assistant, content = [],
         created_at = iso_assistant clk, sources = None\<rparr>],
     requests := requests st @
       [\<lparr>req_message = input st, req_conversation_id = conversationId st\<rparr>]\<rparr>"
  from assms(3) have "\<not> isl (read_loop rt aid reads (st1, [], Some (JArr [])))"
    by (simp add: read_loop_isl)
  then obtain s where r: "read_loop rt aid reads (st1, [], Some (JArr [])) = Inr s"
    by (cases "read_loop rt aid reads (st1, [], Some (JArr []))") auto
  from read_loop_alerts [of rt aid reads "(st1, [], Some (JArr []))"] r
  have "alerts (fst s) = alerts st"
    by (simp add: outcome_def st1_def)
  moreover have "handleSend rt clk (Response True (Some reads)) st = (fst s)\<lparr>loading := False\<rparr>"
    using assms(1,2) r by (simp add: handleSend_def Let_def aid_def st1_def)
  ultimately show ?thesis by simp
qed

text \<open>
  When the lines of the body deliver the events of a query and every read holds whole
  lines, the text of the assistant message at the end is the concatenation of the
  fragments emitted, in order, and no alert is shown.
\<close>

lemma delivered_whole_lines_answer:
  assumes "trim (input st) \<noteq> []" and "\<not> loading st"
    and "delivers rt (concat lss) (events (answer_query cfg run sys))"
  shows "content (last (messages (handleSend rt clk
           (Response True (Some (map (\<lambda>ls. Chunk (chunk_of ls)) lss))) st)))
           = concat (map js (emitted_fragments (events (answer_query cfg run sys))))
         \<and> alerts (handleSend rt clk
             (Response True (Some (map (\<lambda>ls. Chunk (chunk_of ls)) lss))) st) = alerts st"
proof -
  define reads where "reads = map (\<lambda>ls. Chunk (chunk_of ls)) lss"
  from assms(3) have c: "list_all2 (carries rt) (concat lss) (events (answer_query cfg run sys))"
    and nl: "list_all (\<lambda>l. 0xA \<notin> set l) (concat lss)"
    by (simp_all add: delivers_def)
  have ok: "ReadFailure \<notin> set reads"
    by (auto simp: reads_def)
  have cr: "chunks_read (map (\<lambda>ls. Chunk (chunk_of ls)) xs) = map chunk_of xs" for xs
    by (induction xs) simp_all
  from delivered_done [OF c] terminal_event_last [of cfg run sys]
  have ld: "list_all (\<lambda>l. \<not> has_tag rt ''done'' l) (butlast (concat lss))" by simp
  have "fragments_taken rt reads = body_fragments rt (body_read reads)"
    unfolding reads_def by (rule whole_lines_taken [OF nl ld])
  also have "body_read reads = chunk_of (concat lss)"
    by (simp add: reads_def body_read_def cr chunk_of_concat)
  also have "body_fragments rt (chunk_of (concat lss))
      = map js (emitted_fragments (events (answer_query cfg run sys)))"
    by (simp add: body_fragments_chunk_of [OF nl] delivered_fragments [OF c])
  finally show ?thesis
    using handleSend_answer [OF assms(1,2) ok, of rt clk]
      read_loop_alerts_kept [OF assms(1,2) ok, of rt clk]
    by (simp add: reads_def)
qed

lemmas stream_defs = has_tag_def prop_of_def fragment_of_def event_of_def delivers_def



lemma ev_demo: "events (answer_query demo_cfg demo_run demo_sys)
       = [ConversationAssigned 1, ContentFragment ''Hel'', ContentFragment ''lo'',
          SourcesAttached [source_of (chunk_hail, 1)], Completed 1 [source_of (chunk_hail, 1)]]"
  by (simp add: pipeline_defs pipeline_demo_defs)


text \<open>
  C1. The example query emits the identity event first and then the content fragments
  \<open>Hel\<close> and \<open>lo\<close>, in the order generated, and the five lines of \<open>demo_lines\<close> deliver its
  events. The body made of these lines, received in one read, leaves \<open>Hello\<close> as the text
  of the answer. The same body received in two reads, the first of which ends inside the
  line of the fragment \<open>Hel\<close>, has the same content fragments, and \<open>handleSend\<close> ends with
  the answer text \<open>lo\<close>: each read is split into lines on its own, the first half of the
  cut line fails to parse and is logged, the second half does not start with \<open>data: \<close>,
  and nothing of a read is kept for the next one.
\<close>

theorem cut_line_loses_fragment:
  \<open>events (answer_query demo_cfg demo_run demo_sys)
     = [ConversationAssigned 1, ContentFragment ''Hel'', ContentFragment ''lo'',
        SourcesAttached [source_of (chunk_hail, 1)], Completed 1 [source_of (chunk_hail, 1)]]
   \<and> delivers demo_rt demo_lines (events (answer_query demo_cfg demo_run demo_sys))
   \<and> chunks_read demo_cut_reads
       = [chunk_of [line_conversation] @ js ''data: {"type":"content"'',
          js '',"content":"Hel"}'' @ [0xA, 0xA] @ chunk_of [line_lo, line_sources, line_done]]
   \<and> body_read demo_cut_reads = chunk_of demo_lines
   \<and> body_fragments demo_rt (body_read demo_cut_reads) = [js ''Hel'', js ''lo'']
   \<and> map content (messages (handleSend demo_rt demo_clock
        (Response True (Some [Chunk (chunk_of demo_lines)])) demo_chat)) = [js ''hi'', js ''Hello'']
   \<and> map content (messages (handleSend demo_rt demo_clock
        (Response True (Some demo_cut_reads)) demo_chat)) = [js ''hi'', js ''lo'']
   \<and> console (handleSend demo_rt demo_clock (Response True (Some demo_cut_reads)) demo_chat) = 1
   \<and> alerts (handleSend demo_rt demo_clock (Response True (Some demo_cut_reads)) demo_chat) = 0\<close>
proof -
  have d: "delivers demo_rt demo_lines (events (answer_query demo_cfg demo_run demo_sys))"
    unfolding ev_demo by (simp add: demo_lines_def stream_defs demo_defs chat_defs)
  have r: \<open>chunks_read demo_cut_reads
       = [chunk_of [line_conversation] @ js ''data: {"type":"content"'',
          js '',"content":"Hel"}'' @ [0xA, 0xA] @ chunk_of [line_lo, line_sources, line_done]]\<close>
    by (simp add: demo_cut_reads_def demo_body_def demo_lines_def demo_defs chat_defs)
  have b: "body_read demo_cut_reads = chunk_of demo_lines"
    by (simp add: body_read_def demo_cut_reads_def demo_body_def)
  have f: "body_fragments demo_rt (body_read demo_cut_reads) = [js ''Hel'', js ''lo'']"
    unfolding b
    by (simp add: body_fragments_def demo_lines_def stream_defs map_filter_simps
          demo_defs chat_defs)
  have w: "handleSend demo_rt demo_clock
        (Response True (Some [Chunk (chunk_of demo_lines)])) demo_chat
      = \<lparr>messages =
           [\<lparr>msg_id = 1000, role = User, content = js ''hi'', created_at = js ''t1'',
              sources = None\<rparr>,
            \<lparr>msg_id = 1001, role = Assistant, content = js ''Hello'', created_at = js ''t2'',
              sources = Some (JArr [JObj [(js ''page'', JNum 8)]])\<rparr>],
         input = [], loading = False, conversationId = Some (JStr (js ''c1'')),
         requests = [\<lparr>req_message = js ''hi'', req_conversation_id = None\<rparr>],
         alerts = 0, console = 0\<rparr>"
    by (simp add: demo_lines_def demo_defs chat_defs)
  have c: "handleSend demo_rt demo_clock (Response True (Some demo_cut_reads)) demo_chat
      = \<lparr>messages =
           [\<lparr>msg_id = 1000, role = User, content = js ''hi'', created_at = js ''t1'',
              sources = None\<rparr>,
            \<lparr>msg_id = 1001, role = Assistant, content = js ''lo'', created_at = js ''t2'',
              sources = Some (JArr [JObj [(js ''page'', JNum 8)]])\<rparr>],
         input = [], loading = False, conversationId = Some (JStr (js ''c1'')),
         requests = [\<lparr>req_message = js ''hi'', req_conversation_id = None\<rparr>],
         alerts = 0, console = 1\<rparr>"
    by (simp add: demo_cut_reads_def demo_body_def demo_lines_def demo_defs chat_defs)
  show ?thesis
    unfolding w c using ev_demo d r b f by simp
qed






lemma failed_query_terminal:
  assumes "resolve_conversation run sys = Inr (cid, sys1)" and "embedding run = Inr qv"
    and "failure run = Some k"
  shows "events (answer_query cfg run sys)
           = ConversationAssigned cid # map ContentFragment (map fst (units run)) @ [Failed k]"
  using assms by (simp add: answer_query_def Let_def)



section \<open>Properties of retrieval and relevance\<close>

lemma query_empty:
  assumes "\<forall>cv \<in> set idx. relevance qv (snd cv) < lowest"
  shows "query idx qv k lowest filt = []"
proof -
  have "filter (\<lambda>cr. lowest \<le> snd cr)
          (map (\<lambda>cv. (fst cv, relevance qv (snd cv)))
            (filter (\<lambda>cv. case filt of None \<Rightarrow> True | Some cat \<Rightarrow> doc_category (fst cv) = Some cat)
               idx)) = []"
    using assms by (auto simp: filter_empty_conv)
  then show ?thesis by (simp add: query_def)
qed

lemma index_resolve:
  "resolve_conversation run sys = Inr (cid, sys1) \<Longrightarrow> index sys1 = index sys"
  by (auto simp: resolve_conversation_def createConversation_def split: option.splits sum.splits)

lemma assemble_Nil [simp]: "assemble [] b = ([], [])"
  by (simp add: assemble_def)

lemma answer_without_sources:
  assumes none: "\<forall>cv \<in> set (index sys). relevance qv (snd cv) < min_relevance cfg"
    and emb: "embedding run = Inr qv"
    and res: "\<not> isl (resolve_conversation run sys)"
    and ok: "failure run = None" "units run \<noteq> []"
  shows "retrieval_empty (answer_query cfg run sys)
         \<and> last (trace (answer_query cfg run sys)) = DONE
         \<and> list_all (\<lambda>e. attached_sources e = []) (events (answer_query cfg run sys))
         \<and> (\<exists>cid. last (events (answer_query cfg run sys)) = Completed cid [])"
proof -
  from res obtain cid sys1 where r: "resolve_conversation run sys = Inr (cid, sys1)"
    by (cases "resolve_conversation run sys") auto
  from none index_resolve [OF r]
  have q: "query (index sys1) qv (top_k cfg) (min_relevance cfg) (q_filter run) = []"
    by (simp add: query_empty)
  have a: "list_all (\<lambda>e. attached_sources e = []) (map ContentFragment ts)" for ts
    by (induction ts) simp_all
  show ?thesis
    using r emb ok q a [of "map fst (units run)"]
    by (simp add: answer_query_def Let_def list_all_iff)
qed

lemma render_sources_block:
  "render_sources msg = Block xs \<longleftrightarrow> sources msg = Some (JArr xs) \<and> xs \<noteq> []"
  by (auto simp: render_sources_def split: option.splits json.splits if_splits)

text \<open>
  C6. When no chunk of the index reaches the relevance lowest, \<open>query\<close> returns the empty
  sequence, which is a result and not an error. A query that is answered on it ends in
  \<open>DONE\<close> with the \<open>RetrievalEmpty\<close> flag, and every event of its stream that carries
  sources, the terminal event included, carries the empty list. The chat client shows the
  sources block of a message exactly when its sources are a non-empty array; for the
  empty array it shows none.
\<close>

theorem empty_retrieval_handled:
  assumes "\<forall>cv \<in> set (index sys). relevance qv (snd cv) < min_relevance cfg"
    and "embedding run = Inr qv"
    and "\<not> isl (resolve_conversation run sys)"
    and "failure run = None" and "units run \<noteq> []"
  shows "query (index sys) qv (top_k cfg) (min_relevance cfg) (q_filter run) = []
         \<and> retrieval_empty (answer_query cfg run sys)
         \<and> last (trace (answer_query cfg run sys)) = DONE
         \<and> list_all (\<lambda>e. attached_sources e = []) (events (answer_query cfg run sys))
         \<and> (\<exists>cid. last (events (answer_query cfg run sys)) = Completed cid [])
         \<and> (render_sources msg = Block xs \<longleftrightarrow> sources msg = Some (JArr xs) \<and> xs \<noteq> [])
         \<and> render_sources (msg\<lparr>sources := Some (JArr [])\<rparr>) = NoBlock"
  using query_empty [OF assms(1)] answer_without_sources [OF assms] render_sources_block
  by (simp add: render_sources_def)

theorem empty_retrieval_handled_witness:
  "relevance [- 1, 0] [1, 0] = 0 \<and> relevance [- 1, 0] [0, 1] = 1 / 2
   \<and> min_relevance demo_cfg = 3 / 5
   \<and> query (index demo_sys) [- 1, 0] (top_k demo_cfg) (min_relevance demo_cfg) None = []
   \<and> events (answer_query demo_cfg (demo_run\<lparr>embedding := Inr [- 1, 0]\<rparr>) demo_sys)
       = [ConversationAssigned 1, ContentFragment ''Hel'', ContentFragment ''lo'',
          SourcesAttached [], Completed 1 []]
   \<and> retrieval_empty (answer_query demo_cfg (demo_run\<lparr>embedding := Inr [- 1, 0]\<rparr>) demo_sys)
   \<and> sources (last (messages (handleSend demo_rt demo_clock
        (Response True (Some [Chunk (chunk_of
           [line_conversation, line_Hel, line_lo, line_no_sources, line_done])])) demo_chat)))
       = Some (JArr [])
   \<and> render_sources (last (messages (handleSend demo_rt demo_clock
        (Response True (Some [Chunk (chunk_of
           [line_conversation, line_Hel, line_lo, line_no_sources, line_done])])) demo_chat)))
       = NoBlock"
proof -
  define run where "run = demo_run\<lparr>embedding := Inr [- 1, 0]\<rparr>"
  define msg where "msg = last (messages (handleSend demo_rt demo_clock
        (Response True (Some [Chunk (chunk_of
           [line_conversation, line_Hel, line_lo, line_no_sources, line_done])])) demo_chat))"
  have r1: "relevance [- 1, 0] [1, 0] = 0" and r2: "relevance [- 1, 0] [0, 1] = 1 / 2"
    by (simp_all add: relevance_def cosine_def dot_def)
  have h1: "\<forall>cv \<in> set (index demo_sys). relevance [- 1, 0] (snd cv) < min_relevance demo_cfg"
    by (simp add: demo_sys_def demo_cfg_def r1 r2)
  have h2: "embedding run = Inr [- 1, 0]"
    by (simp add: run_def)
  have h3: "\<not> isl (resolve_conversation run demo_sys)"
    by (simp add: run_def resolve_conversation_def demo_run_def createConversation_def)
  have h4: "failure run = None" and h5: "units run \<noteq> []"
    by (simp_all add: run_def demo_run_def)
  have q: "q_filter run = None"
    by (simp add: run_def demo_run_def)
  have e: "events (answer_query demo_cfg run demo_sys)
       = [ConversationAssigned 1, ContentFragment ''Hel'', ContentFragment ''lo'',
          SourcesAttached [], Completed 1 []]"
    using query_empty [OF h1]
    by (simp add: answer_query_def resolve_conversation_def createConversation_def Let_def
          run_def demo_run_def demo_sys_def)
  have s: "sources msg = Some (JArr [])"
    unfolding msg_def by (simp add: demo_defs chat_defs)
  then have m: "msg = msg\<lparr>sources := Some (JArr [])\<rparr>"
    by simp
  have c: "min_relevance demo_cfg = 3 / 5"
    by (simp add: demo_cfg_def)
  from empty_retrieval_handled [OF h1 h2 h3 h4 h5, of msg "[]"]
  have "query (index demo_sys) [- 1, 0] (top_k demo_cfg) (min_relevance demo_cfg) (q_filter run) = []"
    and "retrieval_empty (answer_query demo_cfg run demo_sys)"
    and "render_sources (msg\<lparr>sources := Some (JArr [])\<rparr>) = NoBlock"
    by simp_all
  with m have "query (index demo_sys) [- 1, 0] (top_k demo_cfg) (min_relevance demo_cfg) None = []"
    and "retrieval_empty (answer_query demo_cfg run demo_sys)"
    and "render_sources msg = NoBlock"
    by (simp_all add: q)
  then show ?thesis
    using r1 r2 c e s unfolding run_def msg_def by blast
qed

section \<open>Properties of the relevance scores\<close>

lemma dot_Nil [simp]: "dot [] v = 0" "dot u [] = 0"
  by (simp_all add: dot_def)

lemma dot_Cons [simp]: "dot (a # u) (b # v) = a * b + dot u v"
  by (simp add: dot_def)

lemma dot_self_nonneg: "0 \<le> dot u u"
  by (induction u) simp_all

lemma two_mult_le_sum:
  fixes x p q :: real
  assumes "0 \<le> p" "0 \<le> q" "x\<^sup>2 \<le> 4 * p * q"
  shows "x \<le> p + q"
proof -
  have "4 * p * q \<le> (p + q)\<^sup>2"
  proof -
    have "0 \<le> (p - q)\<^sup>2" by simp
    then show ?thesis by (simp add: power2_eq_square algebra_simps)
  qed
  with assms(3) have "x\<^sup>2 \<le> (p + q)\<^sup>2" by simp
  moreover have "0 \<le> p + q" using assms(1,2) by simp
  ultimately show ?thesis by (rule power2_le_imp_le)
qed

lemma dot_squared_le: "(dot u v)\<^sup>2 \<le> dot u u * dot v v"
proof (induction u v rule: list_induct2')
  case 1
  show ?case by simp
next
  case (2 a u)
  show ?case by simp
next
  case (3 b v)
  show ?case by simp
next
  case (4 a u b v)
  define d where "d = dot u v"
  define U where "U = dot u u"
  define V where "V = dot v v"
  have U: "0 \<le> U" and V: "0 \<le> V"
    by (simp_all add: U_def V_def dot_self_nonneg)
  have IH: "d\<^sup>2 \<le> U * V"
    using "4.IH" by (simp add: d_def U_def V_def)
  have "(2 * a * b * d)\<^sup>2 = 4 * (a\<^sup>2 * b\<^sup>2) * d\<^sup>2"
    by (simp add: power2_eq_square)
  also have "\<dots> \<le> 4 * (a\<^sup>2 * b\<^sup>2) * (U * V)"
    by (intro mult_left_mono IH) simp
  also have "\<dots> = 4 * (a\<^sup>2 * V) * (b\<^sup>2 * U)"
    by simp
  finally have "2 * a * b * d \<le> a\<^sup>2 * V + b\<^sup>2 * U"
    using U V by (intro two_mult_le_sum) simp_all
  then have "(a * b + d)\<^sup>2 \<le> (a * a + U) * (b * b + V)"
    using IH by (simp add: power2_eq_square algebra_simps)
  then show ?case
    by (simp add: d_def U_def V_def)
qed

lemma cosine_bounds: "- 1 \<le> cosine u v \<and> cosine u v \<le> 1"
proof (cases "dot u u = 0 \<or> dot v v = 0")
  case True
  then show ?thesis by (auto simp: cosine_def)
next
  case False
  define n where "n = sqrt (dot u u) * sqrt (dot v v)"
  from False have pu: "0 < dot u u" and pv: "0 < dot v v"
    using dot_self_nonneg [of u] dot_self_nonneg [of v] by simp_all
  then have n: "0 < n" by (simp add: n_def)
  have "(dot u v)\<^sup>2 \<le> n\<^sup>2"
    using dot_squared_le [of u v] pu pv by (simp add: n_def power_mult_distrib)
  then have "\<bar>dot u v\<bar> \<le> n"
    using n by (simp add: abs_le_square_iff [symmetric])
  then have "- n \<le> dot u v" "dot u v \<le> n"
    by (simp_all add: abs_le_iff)
  then have "- 1 \<le> dot u v / n" "dot u v / n \<le> 1"
    using n by (simp_all add: pos_le_divide_eq pos_divide_le_eq)
  moreover have "cosine u v = dot u v / n"
    using False by (simp add: cosine_def n_def)
  ultimately show ?thesis by simp
qed

lemma relevance_bounds: "0 \<le> relevance u v \<and> relevance u v \<le> 1"
  using cosine_bounds [of u v] by (simp add: relevance_def)

lemma mean_bounds:
  assumes "\<forall>x \<in> set xs. 0 \<le> x \<and> x \<le> (1::real)"
  shows "0 \<le> mean xs \<and> mean xs \<le> 1"
proof (cases "xs = []")
  case True
  then show ?thesis by (simp add: mean_def)
next
  case False
  from assms have "0 \<le> sum_list xs \<and> sum_list xs \<le> real (length xs)"
    by (induction xs) auto
  then show ?thesis using False by (simp add: mean_def field_simps)
qed

lemma query_relevance:
  assumes "cr \<in> set (query idx qv k lowest filt)"
  shows "0 \<le> snd cr \<and> snd cr \<le> 1"
proof -
  from assms have "cr \<in> set (sort_key (\<lambda>cr. - snd cr)
       (filter (\<lambda>cr. lowest \<le> snd cr)
         (map (\<lambda>cv. (fst cv, relevance qv (snd cv)))
           (filter (\<lambda>cv. case filt of None \<Rightarrow> True | Some cat \<Rightarrow> doc_category (fst cv) = Some cat)
              idx))))"
    unfolding query_def by (rule in_set_takeD)
  then obtain cv where "cr = (fst cv, relevance qv (snd cv))"
    by auto
  then show ?thesis
    using relevance_bounds [of qv "snd cv"] by simp
qed

lemma set_dedupe: "set (dedupe seen xs) \<subseteq> set xs"
  by (induction seen xs rule: dedupe.induct) auto

lemma set_include_greedily: "set (include_greedily b used xs) \<subseteq> set xs"
  by (induction b used xs rule: include_greedily.induct) auto

lemma assemble_sources:
  "set (snd (assemble retrieved b)) \<subseteq> source_of ` set retrieved"
  using set_include_greedily [of b 0 "dedupe [] retrieved"] set_dedupe [of "[]" retrieved]
  by (auto simp: assemble_def Let_def)

lemma scored_assemble_query: "scored (snd (assemble (query idx qv k lowest filt) b))"
proof -
  have "0 \<le> relevance_score s \<and> relevance_score s \<le> 1"
    if "s \<in> set (snd (assemble (query idx qv k lowest filt) b))" for s
  proof -
    from that assemble_sources [of "query idx qv k lowest filt" b]
    obtain cr where "cr \<in> set (query idx qv k lowest filt)" "s = source_of cr"
      by auto
    then show ?thesis
      using query_relevance [of cr idx qv k lowest filt] by (simp add: source_of_def)
  qed
  then show ?thesis by (simp add: scored_def)
qed

lemma scored_Nil [simp]: "scored []"
  by (simp add: scored_def)

lemma mean_scored: "scored srcs \<Longrightarrow> 0 \<le> mean (map relevance_score srcs) \<and> mean (map relevance_score srcs) \<le> 1"
  by (rule mean_bounds) (auto simp: scored_def)

lemma attached_sources_scored:
  assumes "e \<in> set (events (answer_query cfg run sys))"
  shows "scored (attached_sources e)"
proof (cases "resolve_conversation run sys")
  case (Inl err)
  with assms show ?thesis by (simp add: answer_query_def)
next
  case (Inr p)
  obtain cid sys1 where p: "p = (cid, sys1)" by (cases p)
  show ?thesis
  proof (cases "embedding run")
    case (Inl err)
    with assms Inr p show ?thesis by (auto simp: answer_query_def)
  next
    case (Inr qv)
    note s = scored_assemble_query [of "index sys1" qv "top_k cfg" "min_relevance cfg"
        "q_filter run" "token_budget cfg"]
    from assms \<open>resolve_conversation run sys = Inr p\<close> p Inr s show ?thesis
      by (auto simp: answer_query_def Let_def split: option.splits if_splits)
  qed
qed

lemma metric_events_persist_turn [simp]:
  "metric_events (persist_turn cid q a srcs sys) = metric_events sys"
  by (simp add: persist_turn_def appendMessage_def split: option.splits)

lemma answer_query_metrics_scored:
  assumes "metrics_scored sys"
  shows "metrics_scored (after (answer_query cfg run sys))"
proof (cases "resolve_conversation run sys")
  case (Inl err)
  with assms show ?thesis
    by (simp add: answer_query_def metrics_scored_def mean_def)
next
  case (Inr p)
  obtain cid sys1 where p: "p = (cid, sys1)" by (cases p)
  from metric_events_resolve [OF Inr [unfolded p]] assms
  have m1: "metrics_scored sys1" by (simp add: metrics_scored_def)
  show ?thesis
  proof (cases "embedding run")
    case (Inl err)
    with Inr p m1 show ?thesis
      by (simp add: answer_query_def metrics_scored_def mean_def)
  next
    case (Inr qv)
    note s = mean_scored [OF scored_assemble_query [of "index sys1" qv "top_k cfg"
        "min_relevance cfg" "q_filter run" "token_budget cfg"]]
    from \<open>resolve_conversation run sys = Inr p\<close> p Inr m1 s show ?thesis
      by (auto simp: answer_query_def Let_def metrics_scored_def split: option.splits if_splits)
  qed
qed

lemma serve_metrics_scored:
  "metrics_scored sys \<Longrightarrow> metrics_scored (serve cfg runs sys)"
  unfolding serve_def
  by (induction runs arbitrary: sys) (simp_all add: answer_query_metrics_scored)

lemma stats_relevance:
  assumes "\<forall>m \<in> set evs. 0 \<le> avg_relevance m \<and> avg_relevance m \<le> 1"
    and "stats (Inr evs) now window = Inr (Aggregate a)"
  shows "0 \<le> average_relevance a \<and> average_relevance a \<le> 1"
proof -
  have sub: "set (in_window now window evs) \<subseteq> set evs"
    by (auto simp: in_window_def split: option.splits)
  from assms(2) have "average_relevance a = mean (map avg_relevance (in_window now window evs))"
    by (auto simp: stats_def Let_def split: if_splits)
  moreover have "\<forall>x \<in> set (map avg_relevance (in_window now window evs)). 0 \<le> x \<and> x \<le> 1"
    using assms(1) sub by auto
  ultimately show ?thesis
    using mean_bounds by simp
qed

text \<open>
  C7. Every relevance that \<open>query\<close> returns lies in [0,1], and so does the relevance score
  of every Source in an event of a query's stream. When the average relevance of every
  metric event recorded so far lies in [0,1], it still does after any sequence of queries,
  and the average relevance of an aggregate that \<open>stats\<close> then reports lies in [0,1]. For a
  score in that range the percentage the front end shows lies between 0 and 100.
\<close>

theorem relevance_in_unit_interval:
  assumes "\<forall>m \<in> set (metric_events sys). 0 \<le> avg_relevance m \<and> avg_relevance m \<le> 1"
  shows "(\<forall>cr \<in> set (query idx qv k lowest filt). 0 \<le> snd cr \<and> snd cr \<le> 1)
         \<and> (\<forall>e \<in> set (events (answer_query cfg run sys)).
               \<forall>s \<in> set (attached_sources e). 0 \<le> relevance_score s \<and> relevance_score s \<le> 1)
         \<and> (\<forall>a. stats (Inr (metric_events (serve cfg runs sys))) now window = Inr (Aggregate a)
               \<longrightarrow> 0 \<le> average_relevance a \<and> average_relevance a \<le> 1)
         \<and> (\<forall>r. 0 \<le> r \<and> r \<le> 1 \<longrightarrow> 0 \<le> percent r \<and> percent r \<le> 100)"
proof -
  from assms have "metrics_scored sys"
    by (simp add: metrics_scored_def)
  then have "metrics_scored (serve cfg runs sys)"
    by (rule serve_metrics_scored)
  then have "\<forall>m \<in> set (metric_events (serve cfg runs sys)).
      0 \<le> avg_relevance m \<and> avg_relevance m \<le> 1"
    by (simp add: metrics_scored_def)
  then have c: "\<forall>a. stats (Inr (metric_events (serve cfg runs sys))) now window = Inr (Aggregate a)
               \<longrightarrow> 0 \<le> average_relevance a \<and> average_relevance a \<le> 1"
    using stats_relevance by blast
  have a: "\<forall>cr \<in> set (query idx qv k lowest filt). 0 \<le> snd cr \<and> snd cr \<le> 1"
    using query_relevance by blast
  have b: "\<forall>e \<in> set (events (answer_query cfg run sys)).
               \<forall>s \<in> set (attached_sources e). 0 \<le> relevance_score s \<and> relevance_score s \<le> 1"
    using attached_sources_scored [of _ cfg run sys] by (auto simp: scored_def)
  have d: "\<forall>r. 0 \<le> r \<and> r \<le> 1 \<longrightarrow> 0 \<le> percent r \<and> percent r \<le> 100"
    by (simp add: percent_def)
  from a b c d show ?thesis by blast
qed

theorem relevance_in_unit_interval_witness:
  "metric_events demo_sys = []
   \<and> query (index demo_sys) [1, 0] 3 (3 / 5) None = [(chunk_hail, 1)]
   \<and> map attached_sources (events (answer_query demo_cfg demo_run demo_sys))
       = [[], [], [], [source_of (chunk_hail, 1)], [source_of (chunk_hail, 1)]]
   \<and> reported_relevance
         (stats (Inr (metric_events (serve demo_cfg [demo_run] demo_sys))) 200 (Some 100)) = Some 1
   \<and> list_all (\<lambda>cr. 0 \<le> snd cr \<and> snd cr \<le> 1) (query (index demo_sys) [1, 0] 3 (3 / 5) None)
   \<and> percent (19 / 20) = 95"
proof -
  have m: "metric_events demo_sys = []"
    by (simp add: demo_sys_def)
  then have h: "\<forall>m \<in> set (metric_events demo_sys). 0 \<le> avg_relevance m \<and> avg_relevance m \<le> 1"
    by simp
  have q: "query (index demo_sys) [1, 0] 3 (3 / 5) None = [(chunk_hail, 1)]"
    by (simp add: query_def relevance_def cosine_def dot_def demo_sys_def)
  have e: "map attached_sources (events (answer_query demo_cfg demo_run demo_sys))
       = [[], [], [], [source_of (chunk_hail, 1)], [source_of (chunk_hail, 1)]]"
    by (simp add: pipeline_defs pipeline_demo_defs)
  have s: "reported_relevance
         (stats (Inr (metric_events (serve demo_cfg [demo_run] demo_sys))) 200 (Some 100)) = Some 1"
    by (simp add: reported_relevance_def stats_def in_window_def serve_def
          pipeline_defs pipeline_demo_defs)
  have p: "percent (19 / 20) = 95"
    by (simp add: percent_def)
  from relevance_in_unit_interval [OF h, of "index demo_sys" "[1, 0]" 3 "3 / 5" None]
  have "list_all (\<lambda>cr. 0 \<le> snd cr \<and> snd cr \<le> 1) (query (index demo_sys) [1, 0] 3 (3 / 5) None)"
    by (simp add: list_all_iff)
  with m q e s p show ?thesis by blast
qed

section \<open>Properties of the statistics\<close>

lemma load_failed_text_nonempty: "load_failed_text \<noteq> []"
  by (simp add: load_failed_text_def js_def)






lemma loadStats_timeRange [simp]: "timeRange (loadStats res st) = timeRange st"
  by (simp add: loadStats_def Let_def split: api_result.splits option.splits)

lemma loadStats_calls [simp]:
  "getStats_calls (loadStats res st) = getStats_calls st @ [timeRange st]"
  by (simp add: loadStats_def Let_def split: api_result.splits option.splits)

lemma range_of_offered: "range_of b \<in> {Some 1, Some 24, None}"
  by (cases b) simp_all

lemma click_ranges_offered:
  assumes "ranges_offered st"
  shows "ranges_offered (click st b)"
  using assms range_of_offered [of "fst b"]
  by (auto simp: click_def ranges_offered_def split: dashboard_view.splits)

lemma foldl_click_ranges_offered:
  "ranges_offered st \<Longrightarrow> ranges_offered (foldl click st clicks)"
  by (induction clicks arbitrary: st) (simp_all add: click_ranges_offered)

lemma session_ranges_offered: "ranges_offered (session res clicks)"
  unfolding session_def
  by (rule foldl_click_ranges_offered) (simp add: mount_def ranges_offered_def initial_dashboard_def)

text \<open>
  C3. With a window \<open>w\<close>, the total query count that \<open>stats\<close> reports is the number of
  recorded events whose timestamp lies in \<open>[now - w, now]\<close>; with the window omitted it is
  the number of all recorded events. The dashboard calls \<open>getStats\<close> with 1, 24 or
  \<open>undefined\<close> and with nothing else, whatever buttons are clicked and whatever the
  requests return.
\<close>

theorem stats_counts_window:
  "reported_count (stats (Inr evs) now (Some w))
     = Some (length (filter (\<lambda>e. now - w \<le> timestamp e \<and> timestamp e \<le> now) evs))
   \<and> reported_count (stats (Inr evs) now None) = Some (length evs)
   \<and> set (getStats_calls (session res clicks)) \<subseteq> {Some 1, Some 24, None}
   \<and> timeRange (session res clicks) \<in> {Some 1, Some 24, None}"
proof -
  have "reported_count (stats (Inr evs) now window) = Some (length (in_window now window evs))"
    for window
    by (simp add: reported_count_def stats_def Let_def)
  from this [of "Some w"] this [of None] session_ranges_offered [of res clicks]
  show ?thesis
    by (simp add: in_window_def ranges_offered_def)
qed

theorem stats_counts_window_witness:
  "reported_count (stats (Inr [demo_event, demo_event\<lparr>timestamp := 990\<rparr>]) 1000 (Some 100)) = Some 1
   \<and> reported_count (stats (Inr [demo_event, demo_event\<lparr>timestamp := 990\<rparr>]) 1000 None) = Some 2
   \<and> getStats_calls (session (Resolved demo_stats)
        [(LastHour, Rejected None), (AllTime, Resolved demo_stats), (AllTime, Resolved demo_stats)])
       = [Some 24, Some 1]
   \<and> getStats_calls (session (Resolved demo_stats)
        [(AllTime, Resolved demo_stats), (LastHour, Resolved demo_stats)])
       = [Some 24, None, Some 1]"
proof -
  have f: "length (filter (\<lambda>e. 1000 - 100 \<le> timestamp e \<and> timestamp e \<le> 1000)
             [demo_event, demo_event\<lparr>timestamp := 990\<rparr>]) = 1"
    by (simp add: demo_event_def)
  have c1: "getStats_calls (session (Resolved demo_stats)
        [(LastHour, Rejected None), (AllTime, Resolved demo_stats), (AllTime, Resolved demo_stats)])
       = [Some 24, Some 1]"
    using load_failed_text_nonempty
    by (simp add: session_def mount_def click_def loadStats_def render_def render_loaded_def
          initial_dashboard_def Let_def)
  have c2: "getStats_calls (session (Resolved demo_stats)
        [(AllTime, Resolved demo_stats), (LastHour, Resolved demo_stats)])
       = [Some 24, None, Some 1]"
    by (simp add: session_def mount_def click_def loadStats_def render_def render_loaded_def
          initial_dashboard_def Let_def)
  from stats_counts_window [of "[demo_event, demo_event\<lparr>timestamp := 990\<rparr>]" 1000 100] f c1 c2
  show ?thesis by simp
qed

end
